theory Spec2Isabelle
  imports Main "HOL-Library.Word" "HOL-Library.Sublist"
begin

section \<open>Messages and blocks\<close>

text \<open>
  The message type of the conversation history, with the fields of \<open>schema.Message\<close>
  that this repository reads. \<open>RoleType\<close> is a string type in the schema package; the
  four role constants carry the schema's spellings. Token counts are Go \<open>int64\<close>: 64-bit
  words whose addition wraps and which are compared as signed values through \<open>sint\<close>.
  A \<open>*schema.Message\<close> may be nil, so a message list is a list of \<open>Message option\<close>,
  with \<open>None\<close> for nil.
\<close>

type_synonym int64 = "64 word"
type_synonym RoleType = string
type_synonym err = string

definition Assistant :: RoleType where "Assistant = ''assistant''"
definition User :: RoleType where "User = ''user''"
definition System :: RoleType where "System = ''system''"
definition Tool :: RoleType where "Tool = ''tool''"

record FunctionCall =
  Name :: string
  Arguments :: string

record ToolCall =
  ID :: string
  Function :: FunctionCall

record Message =
  Role :: RoleType
  Content :: string
  ToolCalls :: "ToolCall list"
  ToolCallID :: string
  Extra :: "string \<rightharpoonup> string"

record messageBlock =
  msgs :: "Message option list"
  tokens :: int64

definition summaryMessageFlag :: string where
  "summaryMessageFlag = ''_summary_message''"

text \<open>The zero value of \<open>messageBlock\<close>: no messages, zero tokens.\<close>

definition zeroBlock :: messageBlock where
  "zeroBlock = \<lparr>msgs = [], tokens = 0\<rparr>"

text \<open>\<open>b.msgs = append(b.msgs, msg); b.tokens += t\<close>\<close>

definition appendMsg :: "messageBlock \<Rightarrow> Message \<Rightarrow> int64 \<Rightarrow> messageBlock" where
  "appendMsg b msg t = \<lparr>msgs = msgs b @ [Some msg], tokens = tokens b + t\<rparr>"

section \<open>splitMessages\<close>

text \<open>
  \<open>splitMessages\<close> reads \<open>messages[idx]\<close> only under \<open>idx < len(messages)\<close>, and
  \<open>msgsToken[idx]\<close> at the same index with no check of its own: where
  \<open>msgsToken\<close> is too short Go panics, which is the result \<open>None\<close> here.
\<close>

definition tokenAt :: "int64 list \<Rightarrow> nat \<Rightarrow> int64 option" where
  "tokenAt msgsToken i = (if i < length msgsToken then Some (msgsToken ! i) else None)"

text \<open>The leading system message (lines 172-179): the new \<open>idx\<close> and the system block.\<close>

definition systemPhase :: "Message option list \<Rightarrow> int64 list \<Rightarrow> (nat \<times> messageBlock) option" where
  "systemPhase messages msgsToken =
     (if 0 < length messages then
        (case messages ! 0 of
           None \<Rightarrow> Some (0, zeroBlock)
         | Some msg \<Rightarrow>
             if Role msg = System then
               (case tokenAt msgsToken 0 of
                  None \<Rightarrow> None
                | Some t \<Rightarrow> Some (1, appendMsg zeroBlock msg t))
             else Some (0, zeroBlock))
      else Some (0, zeroBlock))"

text \<open>The loop over the initial user messages (lines 182-194); a nil entry is skipped.\<close>

function userLoop ::
  "Message option list \<Rightarrow> int64 list \<Rightarrow> nat \<Rightarrow> messageBlock \<Rightarrow> (nat \<times> messageBlock) option" where
  "userLoop messages msgsToken idx userBlock =
     (if idx < length messages then
        (case messages ! idx of
           None \<Rightarrow> userLoop messages msgsToken (idx + 1) userBlock
         | Some msg \<Rightarrow>
             if Role msg \<noteq> User then Some (idx, userBlock)
             else
               (case tokenAt msgsToken idx of
                  None \<Rightarrow> None
                | Some t \<Rightarrow> userLoop messages msgsToken (idx + 1) (appendMsg userBlock msg t)))
      else Some (idx, userBlock))"
  by pat_completeness auto
termination
  by (relation "measure (\<lambda>(messages, msgsToken, idx, userBlock). length messages - idx)") auto

declare userLoop.simps [simp del]

text \<open>The previous summary message (lines 197-206).\<close>

definition summaryPhase ::
  "Message option list \<Rightarrow> int64 list \<Rightarrow> nat \<Rightarrow> (nat \<times> messageBlock) option" where
  "summaryPhase messages msgsToken idx =
     (if idx < length messages then
        (case messages ! idx of
           None \<Rightarrow> Some (idx, zeroBlock)
         | Some msg \<Rightarrow>
             if Role msg = Assistant \<and> Extra msg summaryMessageFlag \<noteq> None then
               (case tokenAt msgsToken idx of
                  None \<Rightarrow> None
                | Some t \<Rightarrow> Some (idx + 1, appendMsg zeroBlock msg t))
             else Some (idx, zeroBlock))
      else Some (idx, zeroBlock))"

text \<open>
  The inner loop of a tool block (lines 223-239): from \<open>j\<close> on, the tool messages with
  an empty call id or one of \<open>callIDs\<close> join block \<open>b\<close>; the result is the final \<open>j\<close>
  and the block.
\<close>

function collectTools ::
  "Message option list \<Rightarrow> int64 list \<Rightarrow> string set \<Rightarrow> nat \<Rightarrow> messageBlock \<Rightarrow> (nat \<times> messageBlock) option" where
  "collectTools messages msgsToken callIDs j b =
     (if j < length messages then
        (case messages ! j of
           None \<Rightarrow> Some (j, b)
         | Some nm \<Rightarrow>
             if Role nm \<noteq> Tool then Some (j, b)
             else if ToolCallID nm = [] then
               (case tokenAt msgsToken j of
                  None \<Rightarrow> None
                | Some t \<Rightarrow> collectTools messages msgsToken callIDs (j + 1) (appendMsg b nm t))
             else if ToolCallID nm \<notin> callIDs then Some (j, b)
             else
               (case tokenAt msgsToken j of
                  None \<Rightarrow> None
                | Some t \<Rightarrow> collectTools messages msgsToken callIDs (j + 1) (appendMsg b nm t)))
      else Some (j, b))"
  by pat_completeness auto
termination
  by (relation "measure (\<lambda>(messages, msgsToken, callIDs, j, b). length messages - j)") auto

declare collectTools.simps [simp del]

text \<open>
  The loop over the remaining messages (lines 209-245). Both branches for a non-nil
  message start by reading \<open>msgsToken[i]\<close>. After a tool block the source sets
  \<open>i = j - 1\<close> and the loop header increments it, so the next index is \<open>j\<close>.
\<close>

function toolLoop ::
  "Message option list \<Rightarrow> int64 list \<Rightarrow> nat \<Rightarrow> messageBlock list \<Rightarrow> messageBlock list option" where
  "toolLoop messages msgsToken i toolBlocks =
     (if i < length messages then
        (case messages ! i of
           None \<Rightarrow> toolLoop messages msgsToken (i + 1) toolBlocks
         | Some msg \<Rightarrow>
             (case tokenAt msgsToken i of
                None \<Rightarrow> None
              | Some t \<Rightarrow>
                  if Role msg = Assistant \<and> 0 < length (ToolCalls msg) then
                    (case collectTools messages msgsToken (set (map ID (ToolCalls msg))) (i + 1)
                            \<lparr>msgs = [Some msg], tokens = t\<rparr> of
                       None \<Rightarrow> None
                     | Some r \<Rightarrow> toolLoop messages msgsToken (fst r) (toolBlocks @ [snd r]))
                  else toolLoop messages msgsToken (i + 1)
                         (toolBlocks @ [\<lparr>msgs = [Some msg], tokens = t\<rparr>])))
      else Some toolBlocks)"
  by pat_completeness auto
termination
proof (relation "measure (\<lambda>(messages, msgsToken, i, toolBlocks). length messages - i)")
  fix messages :: "Message option list" and msgsToken :: "int64 list" and i :: nat
    and toolBlocks :: "messageBlock list" and msg t r
  assume lt: "i < length messages"
    and r: "collectTools messages msgsToken (set (map ID (ToolCalls msg))) (i + 1)
              \<lparr>msgs = [Some msg], tokens = t\<rparr> = Some r"
  have ge: "j \<le> fst res" if "collectTools messages msgsToken callIDs j b = Some res"
    for callIDs j b res
    using that
  proof (induction messages msgsToken callIDs j b rule: collectTools.induct)
    case (1 messages msgsToken callIDs j b)
    from "1.prems" show ?case
      by (subst (asm) collectTools.simps)
         (auto split: if_splits option.splits dest: "1.IH"(1) "1.IH"(2))
  qed
  from ge [OF r] have "i + 1 \<le> fst r" .
  with lt show "((messages, msgsToken, fst r, toolBlocks @ [snd r]), (messages, msgsToken, i, toolBlocks))
      \<in> measure (\<lambda>(messages, msgsToken, i, toolBlocks). length messages - i)"
    by simp
qed auto

declare toolLoop.simps [simp del]

definition splitMessages ::
  "Message option list \<Rightarrow> int64 list \<Rightarrow>
     (messageBlock \<times> messageBlock \<times> messageBlock \<times> messageBlock list) option" where
  "splitMessages messages msgsToken =
     (case systemPhase messages msgsToken of
        None \<Rightarrow> None
      | Some (idx1, systemBlock) \<Rightarrow>
          (case userLoop messages msgsToken idx1 zeroBlock of
             None \<Rightarrow> None
           | Some (idx2, userBlock) \<Rightarrow>
               (case summaryPhase messages msgsToken idx2 of
                  None \<Rightarrow> None
                | Some (idx3, summaryBlock) \<Rightarrow>
                    (case toolLoop messages msgsToken idx3 [] of
                       None \<Rightarrow> None
                     | Some toolBlocks \<Rightarrow>
                         Some (systemBlock, userBlock, summaryBlock, toolBlocks)))))"

section \<open>ProcessMessages\<close>

text \<open>
  The token counter, the summarizer and the chat model are capabilities: functions that
  return an error or a result. The two thresholds are Go \<open>int\<close>s, 64 bits wide on the
  platforms the server is built for, so that \<open>int64(m.maxBefore)\<close> is the field itself.
\<close>

type_synonym TokenCounter = "Message option list \<Rightarrow> err + int64 list"
type_synonym Summarizer = "string \<Rightarrow> err + Message"
type_synonym ChatModel = "Message list \<Rightarrow> err + Message"

record Config =
  MaxTokensBeforeSummary :: int64
  MaxTokensForRecentMessages :: int64
  Counter :: "TokenCounter option"
  Model :: "ChatModel option"
  SystemPrompt :: string

record Middleware =
  counter :: TokenCounter
  maxBefore :: int64
  maxRecent :: int64
  summarizer :: Summarizer

definition DefaultMaxTokensBeforeSummary :: int64 where
  "DefaultMaxTokensBeforeSummary = 2000"

definition DefaultMaxTokensForRecentMessages :: int64 where
  "DefaultMaxTokensForRecentMessages = 500"

definition nl :: string where
  "nl = [CHR 0x0A]"

definition defaultSummaryPrompt :: string where
  \<open>defaultSummaryPrompt =
     ''You are a conversation summarizer. Your task is to create a concise summary of the conversation history.'' @ nl @
     nl @
     ''Guidelines:'' @ nl @
     ''1. Preserve key information, decisions, and context'' @ nl @
     ''2. Maintain the chronological flow of the conversation'' @ nl @
     ''3. Include important facts, user preferences, and action items'' @ nl @
     ''4. Keep the summary concise but informative'' @ nl @
     ''5. Use clear, structured format'' @ nl @
     nl @
     ''Output format:'' @ nl @
     ''- Start with "Summary of previous conversation:"'' @ nl @
     ''- Use bullet points for key points'' @ nl @
     ''- Include any pending questions or action items''\<close>

text \<open>
  \<open>defaultCounterToken\<close> (lines 290-313): a quarter of the number of bytes of the role,
  the content and, for an assistant message with tool calls, the names and arguments of
  the calls; at least 1 when there is any byte; 0 for a nil message. It never fails.
\<close>

definition countToken :: "Message option \<Rightarrow> int64" where
  "countToken m0 =
     (case m0 of
        None \<Rightarrow> 0
      | Some m \<Rightarrow>
          let len = length (Role m) + length (Content m)
                + (if Role m = Assistant \<and> 0 < length (ToolCalls m)
                   then sum_list (map (\<lambda>tc. length (Name (Function tc)) + length (Arguments (Function tc)))
                                      (ToolCalls m))
                   else 0);
              t = (word_of_nat (len div 4) :: int64)
          in if t = 0 \<and> 0 < len then 1 else t)"

definition defaultCounterToken :: TokenCounter where
  "defaultCounterToken ms = Inr (map countToken ms)"

text \<open>
  \<open>New\<close> (lines 59-105). The summarizer is a chain of the schema's prompt template and
  the configured model, compiled by the compose package, which this repository imports:
  \<open>Compile\<close> stands for that construction, from the system prompt and the model to the
  runnable or an error.
\<close>

datatype newError = ConfigIsNil | ModelIsRequired | CompileSummarizerFailed err

definition New ::
  "(string \<Rightarrow> ChatModel \<Rightarrow> err + Summarizer) \<Rightarrow> Config option \<Rightarrow> newError + Middleware" where
  "New Compile cfg0 =
     (case cfg0 of
        None \<Rightarrow> Inl ConfigIsNil
      | Some cfg \<Rightarrow>
          (case Model cfg of
             None \<Rightarrow> Inl ModelIsRequired
           | Some model \<Rightarrow>
               let systemPrompt = (if SystemPrompt cfg = [] then defaultSummaryPrompt else SystemPrompt cfg);
                   maxBefore = (if 0 < sint (MaxTokensBeforeSummary cfg)
                                then MaxTokensBeforeSummary cfg else DefaultMaxTokensBeforeSummary);
                   maxRecent = (if 0 < sint (MaxTokensForRecentMessages cfg)
                                then MaxTokensForRecentMessages cfg else DefaultMaxTokensForRecentMessages)
               in (case Compile systemPrompt model of
                     Inl e \<Rightarrow> Inl (CompileSummarizerFailed e)
                   | Inr chain \<Rightarrow>
                       Inr \<lparr>counter = (case Counter cfg of None \<Rightarrow> defaultCounterToken | Some c \<Rightarrow> c),
                            maxBefore = maxBefore, maxRecent = maxRecent, summarizer = chain\<rparr>)))"

text \<open>\<open>total += t\<close> over the counts, in \<open>int64\<close> (lines 121-124).\<close>

definition sumTokens :: "int64 list \<Rightarrow> int64" where
  "sumTokens msgsToken = foldl (+) 0 msgsToken"

text \<open>
  The budget loop (lines 139-147), \<open>for i := len(toolBlocks) - 1; i >= 0; i--\<close>: the
  counter \<open>Suc i\<close> is the state in which the body runs at index \<open>i\<close>, and 0 is the exit.
  The state is \<open>(recentBlocks, olderBlocks, recentTokens)\<close>; \<open>budget\<close> is
  \<open>int64(m.maxRecent)\<close>.
\<close>

fun budgetLoop ::
  "int64 \<Rightarrow> messageBlock list \<Rightarrow> nat \<Rightarrow> messageBlock list \<times> messageBlock list \<times> int64 \<Rightarrow>
     messageBlock list \<times> messageBlock list \<times> int64" where
  "budgetLoop budget toolBlocks 0 st = st"
| "budgetLoop budget toolBlocks (Suc i) (recentBlocks, olderBlocks, recentTokens) =
     (let b = toolBlocks ! i in
      if sint budget < sint (recentTokens + tokens b) then
        budgetLoop budget toolBlocks i (recentBlocks, [b] @ olderBlocks, recentTokens)
      else
        budgetLoop budget toolBlocks i ([b] @ recentBlocks, olderBlocks, recentTokens + tokens b))"

text \<open>
  The budget split in the words of the specification: walk the blocks from the newest to
  the oldest with a running total that starts at zero; a block that would take the total
  over the budget is put in front of the older list and leaves the total as it is, any
  other block is put in front of the recent list and adds its tokens.
\<close>

definition specBudgetStep ::
  "int64 \<Rightarrow> messageBlock \<Rightarrow> messageBlock list \<times> messageBlock list \<times> int64 \<Rightarrow>
     messageBlock list \<times> messageBlock list \<times> int64" where
  "specBudgetStep budget b st =
     (case st of (recent, older, running) \<Rightarrow>
        if sint budget < sint (running + tokens b) then (recent, b # older, running)
        else (b # recent, older, running + tokens b))"

definition specBudgetSplit ::
  "int64 \<Rightarrow> messageBlock list \<Rightarrow> messageBlock list \<times> messageBlock list \<times> int64" where
  "specBudgetSplit budget blocks = foldr (specBudgetStep budget) blocks ([], [], 0)"

text \<open>\<open>renderMsg\<close> and \<open>joinBlocks\<close> (lines 250-288).\<close>

definition renderToolCall :: "ToolCall \<Rightarrow> string" where
  "renderToolCall tc =
     (if Name (Function tc) \<noteq> [] then ''tool_call: '' @ Name (Function tc) @ nl else [])
     @ (if Arguments (Function tc) \<noteq> [] then ''args: '' @ Arguments (Function tc) @ nl else [])"

definition renderMsg :: "Message option \<Rightarrow> string" where
  "renderMsg m0 =
     (case m0 of
        None \<Rightarrow> []
      | Some m \<Rightarrow>
          ''['' @ Role m @ '']'' @ nl
          @ (if Content m \<noteq> [] then Content m @ nl else [])
          @ (if Role m = Assistant \<and> 0 < length (ToolCalls m)
             then concat (map renderToolCall (ToolCalls m)) else []))"

definition joinBlocks :: "messageBlock list \<Rightarrow> string" where
  "joinBlocks blocks = concat (map (\<lambda>b. concat (map (\<lambda>m. renderMsg m @ nl) (msgs b))) blocks)"

text \<open>
  \<open>ProcessMessages\<close> (lines 108-161). The result is the list of the calls it made, in
  order, and what it returned: \<open>Some (Inr messages)\<close> for a message list with a nil
  error, \<open>Some (Inl e)\<close> for a nil list with the error \<open>e\<close>, and \<open>None\<close> for a
  run-time panic inside \<open>splitMessages\<close>.
\<close>

datatype event = CounterCall "Message option list" | SplitCall | SummarizerInvoke string

datatype error = CountTokenFailed err | TokenCountMismatch nat nat | SummarizeFailed err

definition ProcessMessages ::
  "Middleware \<Rightarrow> Message option list \<Rightarrow> event list \<times> (error + Message option list) option" where
  "ProcessMessages m messages =
     (if length messages = 0 then ([], Some (Inr messages))
      else
        (case counter m messages of
           Inl e \<Rightarrow> ([CounterCall messages], Some (Inl (CountTokenFailed e)))
         | Inr msgsToken \<Rightarrow>
             if length messages \<noteq> length msgsToken then
               ([CounterCall messages],
                Some (Inl (TokenCountMismatch (length messages) (length msgsToken))))
             else if sint (sumTokens msgsToken) \<le> sint (maxBefore m) then
               ([CounterCall messages], Some (Inr messages))
             else
               (case splitMessages messages msgsToken of
                  None \<Rightarrow> ([CounterCall messages, SplitCall], None)
                | Some (systemBlock, userBlock, summaryBlock, toolBlocks) \<Rightarrow>
                    (case budgetLoop (maxRecent m) toolBlocks (length toolBlocks) ([], [], 0) of
                       (recentBlocks, olderBlocks, recentTokens) \<Rightarrow>
                         let olderText = joinBlocks olderBlocks in
                         (case summarizer m olderText of
                            Inl e \<Rightarrow>
                              ([CounterCall messages, SplitCall, SummarizerInvoke olderText],
                               Some (Inl (SummarizeFailed e)))
                          | Inr summary \<Rightarrow>
                              ([CounterCall messages, SplitCall, SummarizerInvoke olderText],
                               Some (Inr messages)))))))"

text \<open>The text that \<open>ProcessMessages\<close> hands to the summarizer, for use in statements.\<close>

definition olderTextOf :: "Middleware \<Rightarrow> Message option list \<Rightarrow> int64 list \<Rightarrow> string" where
  "olderTextOf m messages msgsToken =
     (case splitMessages messages msgsToken of
        None \<Rightarrow> []
      | Some (systemBlock, userBlock, summaryBlock, toolBlocks) \<Rightarrow>
          joinBlocks (fst (snd (budgetLoop (maxRecent m) toolBlocks (length toolBlocks) ([], [], 0)))))"


section \<open>Tool result formatting\<close>

text \<open>
  \<open>formatToolResult\<close> (agent.go, lines 372-404). \<open>strings.TrimSpace\<close> is the standard
  library's: it removes the leading and the trailing white space of Unicode from a UTF-8
  string. \<open>spaceRunes\<close> lists the UTF-8 encodings of the code points that
  \<open>unicode.IsSpace\<close> accepts: U+0009 to U+000D, U+0020, U+0085, U+00A0, U+1680, U+2000 to
  U+200A, U+2028, U+2029, U+202F, U+205F and U+3000. Bytes that are no valid encoding
  decode to U+FFFD, which is no white space, so the leading white space is the longest
  run of these encodings at the start, which \<open>trimLeft\<close> removes, and likewise at the end.
  \<open>json.Unmarshal\<close> is the standard library's decoder: \<open>Unmarshal\<close> stands for it, from the
  text to the items of the \<open>content\<close> field or an error.
\<close>

record mcpItem =
  Type :: string
  Text :: string

definition spaceRunes :: "string list" where
  "spaceRunes =
     [[CHR 0x09], [CHR 0x0A], [CHR 0x0B], [CHR 0x0C], [CHR 0x0D], [CHR 0x20],
      [CHR 0xC2, CHR 0x85], [CHR 0xC2, CHR 0xA0],
      [CHR 0xE1, CHR 0x9A, CHR 0x80],
      [CHR 0xE2, CHR 0x80, CHR 0x80], [CHR 0xE2, CHR 0x80, CHR 0x81], [CHR 0xE2, CHR 0x80, CHR 0x82],
      [CHR 0xE2, CHR 0x80, CHR 0x83], [CHR 0xE2, CHR 0x80, CHR 0x84], [CHR 0xE2, CHR 0x80, CHR 0x85],
      [CHR 0xE2, CHR 0x80, CHR 0x86], [CHR 0xE2, CHR 0x80, CHR 0x87], [CHR 0xE2, CHR 0x80, CHR 0x88],
      [CHR 0xE2, CHR 0x80, CHR 0x89], [CHR 0xE2, CHR 0x80, CHR 0x8A],
      [CHR 0xE2, CHR 0x80, CHR 0xA8], [CHR 0xE2, CHR 0x80, CHR 0xA9], [CHR 0xE2, CHR 0x80, CHR 0xAF],
      [CHR 0xE2, CHR 0x81, CHR 0x9F],
      [CHR 0xE3, CHR 0x80, CHR 0x80]]"

function trimLeft :: "string list \<Rightarrow> string \<Rightarrow> string" where
  "trimLeft encs s =
     (case find (\<lambda>e. e \<noteq> [] \<and> take (length e) s = e) encs of
        None \<Rightarrow> s
      | Some e \<Rightarrow> trimLeft encs (drop (length e) s))"
  by pat_completeness auto
termination
proof (relation "measure (\<lambda>(encs, s). length s)")
  fix encs :: "string list" and s e :: string
  assume "find (\<lambda>e. e \<noteq> [] \<and> take (length e) s = e) encs = Some e"
  then have e: "e \<noteq> []" "take (length e) s = e"
    by (auto simp: find_Some_iff)
  from e(2) have "length e \<le> length s"
    by (metis length_take min.cobounded1)
  with e(1) show "((encs, drop (length e) s), (encs, s)) \<in> measure (\<lambda>(encs, s). length s)"
    by (cases e) auto
qed simp

declare trimLeft.simps [simp del]

definition TrimSpace :: "string \<Rightarrow> string" where
  "TrimSpace s = rev (trimLeft (map rev spaceRunes) (rev (trimLeft spaceRunes s)))"

definition HasPrefix :: "string \<Rightarrow> string \<Rightarrow> bool" where
  "HasPrefix s pre = (length pre \<le> length s \<and> take (length pre) s = pre)"

text \<open>The loop over the decoded items (lines 392-397): the non-empty texts of type \<open>text\<close>.\<close>

definition textParts :: "mcpItem list \<Rightarrow> string" where
  "textParts mcpResult =
     concat (map Text (filter (\<lambda>item. Type item = ''text'' \<and> Text item \<noteq> []) mcpResult))"

definition contentPrefix :: string where
  \<open>contentPrefix = ''{"content"''\<close>

definition formatToolResult :: "(string \<Rightarrow> err + mcpItem list) \<Rightarrow> string \<Rightarrow> string" where
  "formatToolResult Unmarshal content0 =
     (let c = TrimSpace content0 in
      if \<not> HasPrefix c contentPrefix then c
      else
        (case Unmarshal c of
           Inl e \<Rightarrow> c
         | Inr mcpResult \<Rightarrow>
             let formatted = textParts mcpResult
             in if formatted = [] then c else formatted))"

text \<open>\<open>schema.ToolMessage(content, toolCallID)\<close>: a tool message with these two fields.\<close>

definition ToolMessage :: "string \<Rightarrow> string \<Rightarrow> Message" where
  "ToolMessage c toolCallID =
     \<lparr>Role = Tool, Content = c, ToolCalls = [], ToolCallID = toolCallID, Extra = Map.empty\<rparr>"

text \<open>
  The \<open>AfterChatModel\<close> middleware (agent.go, lines 70-87). \<open>formatMessage\<close> is the body
  of its loop for one message, and the loop replaces \<open>state.Messages[i]\<close> in place; a nil
  entry makes \<open>msg.Role\<close> panic, the result \<open>None\<close>.
\<close>

definition formatMessage :: "(string \<Rightarrow> err + mcpItem list) \<Rightarrow> Message \<Rightarrow> Message" where
  "formatMessage Unmarshal msg =
     (if Role msg = Tool \<and> Content msg \<noteq> [] then
        let formatted = formatToolResult Unmarshal (Content msg) in
        if formatted \<noteq> Content msg then
          let toolCallID = (if 0 < length (ToolCalls msg) then ID (ToolCalls msg ! 0) else [])
          in ToolMessage formatted toolCallID
        else msg
      else msg)"

fun AfterChatModel ::
  "(string \<Rightarrow> err + mcpItem list) \<Rightarrow> Message option list \<Rightarrow> Message option list option" where
  "AfterChatModel Unmarshal [] = Some []"
| "AfterChatModel Unmarshal (None # rest) = None"
| "AfterChatModel Unmarshal (Some msg # rest) =
     (case AfterChatModel Unmarshal rest of
        None \<Rightarrow> None
      | Some rest' \<Rightarrow> Some (Some (formatMessage Unmarshal msg) # rest'))"

section \<open>Sessions\<close>

text \<open>
  The agent's session registry (agent.go). A \<open>*Session\<close> is a reference into \<open>heap\<close>, the
  list of the \<open>Session\<close> objects allocated so far; \<open>sessions\<close> is the map from session id
  to reference. The store is the \<open>Read\<close> method of \<open>memory.Store\<close>, or \<open>None\<close> for a nil
  store; it returns the pair of Go: the list, \<open>None\<close> for a nil list, and the error,
  \<open>None\<close> for a nil error. \<open>log\<close> records the reads of the store and the warnings, in
  order. The mutexes are left out: the operations are modelled one at a time. The field
  \<open>ID\<close> of \<open>Session\<close> is named \<open>SessionID\<close> here, apart from the field \<open>ID\<close> of a tool
  call.
\<close>

type_synonym StoreRead = "string \<Rightarrow> Message option list option \<times> err option"

record Session =
  SessionID :: string
  Messages :: "Message option list"

datatype agentEvent = StoreReadCall string | Warnf string err

record Agent =
  sessions :: "string \<rightharpoonup> nat"
  heap :: "Session list"
  memoryStore :: "StoreRead option"
  log :: "agentEvent list"

definition GetOrCreateSession :: "Agent \<Rightarrow> string \<Rightarrow> nat \<times> Agent" where
  "GetOrCreateSession a sessionID =
     (case sessions a sessionID of
        Some session \<Rightarrow> (session, a)
      | None \<Rightarrow>
          (case (case memoryStore a of
                   None \<Rightarrow> (None, [])
                 | Some store \<Rightarrow>
                     (case store sessionID of
                        (ms0, e0) \<Rightarrow>
                          (ms0, StoreReadCall sessionID
                                  # (case e0 of None \<Rightarrow> [] | Some e \<Rightarrow> [Warnf sessionID e])))) of
             (loaded, events) \<Rightarrow>
               let ms = (case loaded of None \<Rightarrow> [] | Some l \<Rightarrow> l);
                   session = length (heap a)
               in (session,
                   a\<lparr>sessions := (sessions a)(sessionID \<mapsto> session),
                     heap := heap a @ [\<lparr>SessionID = sessionID, Messages = ms\<rparr>],
                     log := log a @ events\<rparr>)))"

definition ClearSession :: "Agent \<Rightarrow> string \<Rightarrow> Agent" where
  "ClearSession a sessionID = a\<lparr>sessions := (sessions a)(sessionID := None)\<rparr>"

definition AppendAssistantMessage :: "Agent \<Rightarrow> string \<Rightarrow> Message option \<Rightarrow> Agent" where
  "AppendAssistantMessage a sessionID message =
     (case sessions a sessionID of
        None \<Rightarrow> a
      | Some session \<Rightarrow>
          a\<lparr>heap := (heap a)[session := (heap a ! session)
                     \<lparr>Messages := Messages (heap a ! session) @ [message]\<rparr>]\<rparr>)"

definition GetSessionHistory :: "Agent \<Rightarrow> string \<Rightarrow> Message option list option" where
  "GetSessionHistory a sessionID =
     (case sessions a sessionID of
        None \<Rightarrow> None
      | Some session \<Rightarrow> Some (Messages (heap a ! session)))"

section \<open>The in-memory store and the gob wrappers\<close>

text \<open>
  \<open>InMemoryStore\<close> (inmem.go). \<open>Write\<close> stores a copy of the list and returns a nil
  error; \<open>Read\<close> returns a copy of the stored list, or a nil list for an unknown id, and
  never an error.
\<close>

record InMemoryStore =
  data :: "string \<rightharpoonup> Message option list"

definition NewInMemoryStore :: InMemoryStore where
  "NewInMemoryStore = \<lparr>data = Map.empty\<rparr>"

definition Write :: "InMemoryStore \<Rightarrow> string \<Rightarrow> Message option list \<Rightarrow> InMemoryStore \<times> err option" where
  "Write s sessionID ms =
     (let msgsCopy = ms in (s\<lparr>data := (data s)(sessionID \<mapsto> msgsCopy)\<rparr>, None))"

definition Read :: "InMemoryStore \<Rightarrow> StoreRead" where
  "Read s sessionID =
     (case data s sessionID of
        None \<Rightarrow> (None, None)
      | Some ms \<Rightarrow> (let msgsCopy = ms in (Some msgsCopy, None)))"






section \<open>Auxiliary notions for the statements\<close>

text \<open>The non-nil entries of a list, and the segment of a list from index \<open>i\<close> up to \<open>j\<close>.\<close>

definition nonNil :: "'a option list \<Rightarrow> 'a option list" where
  "nonNil xs = filter (\<lambda>m. m \<noteq> None) xs"

definition seg :: "'a list \<Rightarrow> nat \<Rightarrow> nat \<Rightarrow> 'a list" where
  "seg xs i j = take (j - i) (drop i xs)"

section \<open>Example data\<close>

text \<open>
  The history of the specification's example: a system message, two user messages, an
  assistant message with the tool calls \<open>t1\<close> and \<open>t2\<close>, their two tool messages and a
  final assistant message.
\<close>

definition sysMsg :: Message where
  "sysMsg = \<lparr>Role = System, Content = ''be brief'', ToolCalls = [], ToolCallID = [], Extra = Map.empty\<rparr>"

definition userMsg1 :: Message where
  "userMsg1 = \<lparr>Role = User, Content = ''hello'', ToolCalls = [], ToolCallID = [], Extra = Map.empty\<rparr>"

definition userMsg2 :: Message where
  "userMsg2 = \<lparr>Role = User, Content = ''list and count the files'', ToolCalls = [], ToolCallID = [],
     Extra = Map.empty\<rparr>"

definition callMsg :: Message where
  "callMsg = \<lparr>Role = Assistant, Content = [],
     ToolCalls = [\<lparr>ID = ''t1'', Function = \<lparr>Name = ''ls'', Arguments = ''{}''\<rparr>\<rparr>,
                  \<lparr>ID = ''t2'', Function = \<lparr>Name = ''wc'', Arguments = ''{}''\<rparr>\<rparr>],
     ToolCallID = [], Extra = Map.empty\<rparr>"

definition toolMsg1 :: Message where
  "toolMsg1 = \<lparr>Role = Tool, Content = ''a b'', ToolCalls = [], ToolCallID = ''t1'', Extra = Map.empty\<rparr>"

definition toolMsg2 :: Message where
  "toolMsg2 = \<lparr>Role = Tool, Content = ''2'', ToolCalls = [], ToolCallID = ''t2'', Extra = Map.empty\<rparr>"

definition replyMsg :: Message where
  "replyMsg = \<lparr>Role = Assistant, Content = ''two files'', ToolCalls = [], ToolCallID = [],
     Extra = Map.empty\<rparr>"

definition exampleMessages :: "Message option list" where
  "exampleMessages =
     [Some sysMsg, Some userMsg1, Some userMsg2, Some callMsg, Some toolMsg1, Some toolMsg2, Some replyMsg]"

text \<open>
  Middlewares for that history, which the default counter counts as 3, 2, 7, 4, 1, 1 and 4
  tokens, 22 in all: one whose summarizer answers, with a threshold to choose, one whose
  summarizer fails, and one whose counter returns a single count for any list.
\<close>

definition summaryMsg :: Message where
  "summaryMsg = \<lparr>Role = Assistant, Content = ''Summary of previous conversation: two files'',
     ToolCalls = [], ToolCallID = [], Extra = Map.empty\<rparr>"

definition exampleMiddleware :: "int64 \<Rightarrow> Middleware" where
  "exampleMiddleware threshold =
     \<lparr>counter = defaultCounterToken, maxBefore = threshold, maxRecent = 5,
      summarizer = (\<lambda>text. Inr summaryMsg)\<rparr>"

definition failingMiddleware :: Middleware where
  "failingMiddleware =
     \<lparr>counter = defaultCounterToken, maxBefore = 20, maxRecent = 5,
      summarizer = (\<lambda>text. Inl ''model unavailable'')\<rparr>"

definition miscountMiddleware :: Middleware where
  "miscountMiddleware =
     \<lparr>counter = (\<lambda>ms. Inr [1]), maxBefore = 20, maxRecent = 5,
      summarizer = (\<lambda>text. Inr summaryMsg)\<rparr>"

text \<open>
  Tool messages: one with a structured result, one with the same result and a space after
  the opening brace, with the items the decoder reads from both, one with plain text
  between ASCII white space, and one with plain text between a no-break space (U+00A0)
  and an ideographic space (U+3000).
\<close>

definition mcpContent :: string where
  \<open>mcpContent = ''{"content":[{"type":"text","text":"hi"}]}''\<close>

definition mcpToolMsg :: Message where
  "mcpToolMsg = \<lparr>Role = Tool, Content = mcpContent, ToolCalls = [], ToolCallID = ''call_1'',
     Extra = Map.empty\<rparr>"

definition spacedContent :: string where
  \<open>spacedContent = ''{ "content":[{"type":"text","text":"hi"}]}''\<close>

definition spacedToolMsg :: Message where
  "spacedToolMsg = \<lparr>Role = Tool, Content = spacedContent, ToolCalls = [], ToolCallID = ''call_3'',
     Extra = Map.empty\<rparr>"

definition mcpDecoded :: "string \<Rightarrow> err + mcpItem list" where
  "mcpDecoded s =
     (if s = mcpContent \<or> s = spacedContent then Inr [\<lparr>Type = ''text'', Text = ''hi''\<rparr>]
      else Inl ''invalid character'')"

definition paddedContent :: string where
  "paddedContent = '' 42'' @ nl"

definition paddedToolMsg :: Message where
  "paddedToolMsg = \<lparr>Role = Tool, Content = paddedContent, ToolCalls = [], ToolCallID = ''call_2'',
     Extra = Map.empty\<rparr>"

definition nbspContent :: string where
  "nbspContent = [CHR 0xC2, CHR 0xA0] @ ''42'' @ [CHR 0xE3, CHR 0x80, CHR 0x80]"

definition nbspToolMsg :: Message where
  "nbspToolMsg = \<lparr>Role = Tool, Content = nbspContent, ToolCalls = [], ToolCallID = ''call_4'',
     Extra = Map.empty\<rparr>"

text \<open>
  Agents with no session yet: one over an empty in-memory store, one whose store fails
  with no list, and one whose store returns a list together with an error.
\<close>

definition agent0 :: Agent where
  "agent0 = \<lparr>sessions = Map.empty, heap = [], memoryStore = Some (Read NewInMemoryStore), log = []\<rparr>"

definition brokenStore :: StoreRead where
  "brokenStore sessionID = (None, Some ''connection refused'')"

definition brokenAgent :: Agent where
  "brokenAgent = \<lparr>sessions = Map.empty, heap = [], memoryStore = Some brokenStore, log = []\<rparr>"

definition partialStore :: StoreRead where
  "partialStore sessionID = (Some [Some userMsg1], Some ''unexpected EOF'')"

definition partialAgent :: Agent where
  "partialAgent = \<lparr>sessions = Map.empty, heap = [], memoryStore = Some partialStore, log = []\<rparr>"

section \<open>Segments and non-nil entries\<close>

lemmas example_defs = exampleMessages_def sysMsg_def userMsg1_def userMsg2_def callMsg_def
  toolMsg1_def toolMsg2_def replyMsg_def

lemmas role_defs = System_def User_def Assistant_def Tool_def

lemma seg_empty [simp]: "seg xs i i = []"
  by (simp add: seg_def)

lemma seg_step: "i < length xs \<Longrightarrow> i < j \<Longrightarrow> seg xs i j = xs ! i # seg xs (Suc i) j"
proof -
  assume a: "i < length xs" "i < j"
  then obtain k where k: "j - i = Suc k" by (cases "j - i") auto
  with a have "j - Suc i = k" by simp
  with a k show ?thesis
    by (simp add: seg_def Cons_nth_drop_Suc [symmetric])
qed

lemma seg_append: "i \<le> j \<Longrightarrow> j \<le> k \<Longrightarrow> seg xs i j @ seg xs j k = seg xs i k"
proof -
  assume a: "i \<le> j" "j \<le> k"
  have "take (k - i) (drop i xs) = take (j - i) (drop i xs) @ take (k - i - (j - i)) (drop (j - i) (drop i xs))"
    using a by (metis add_diff_cancel_left' diff_le_mono le_Suc_ex take_add)
  with a show ?thesis by (simp add: seg_def)
qed

lemma seg_all: "seg xs 0 (length xs) = xs"
  by (simp add: seg_def)

lemma nonNil_append [simp]: "nonNil (xs @ ys) = nonNil xs @ nonNil ys"
  by (simp add: nonNil_def)

lemma nonNil_simps [simp]: "nonNil [] = []" "nonNil (None # xs) = nonNil xs" "nonNil (Some x # xs) = Some x # nonNil xs"
  by (simp_all add: nonNil_def)

lemma userLoop_spec:
  "length msgsToken = length messages \<Longrightarrow> idx \<le> length messages \<Longrightarrow>
   \<exists>idx' b'. userLoop messages msgsToken idx b = Some (idx', b') \<and> idx \<le> idx' \<and> idx' \<le> length messages
      \<and> msgs b' = msgs b @ nonNil (seg messages idx idx')"
proof (induction messages msgsToken idx b rule: userLoop.induct)
  case (1 messages msgsToken idx userBlock)
  show ?case
  proof (cases "idx < length messages")
    case False
    with "1.prems" show ?thesis by (subst userLoop.simps) simp
  next
    case lt: True
    show ?thesis
    proof (cases "messages ! idx")
      case None
      from "1.IH"(1) [OF lt None] "1.prems" lt
      obtain idx' b' where r: "userLoop messages msgsToken (idx + 1) userBlock = Some (idx', b')"
        "idx + 1 \<le> idx'" "idx' \<le> length messages"
        "msgs b' = msgs userBlock @ nonNil (seg messages (idx + 1) idx')"
        by auto
      from lt r(2) None have "nonNil (seg messages idx idx') = nonNil (seg messages (idx + 1) idx')"
        by (simp add: seg_step)
      with r lt None show ?thesis
        by (subst userLoop.simps) simp
    next
      case (Some msg)
      show ?thesis
      proof (cases "Role msg = User")
        case False
        with lt Some show ?thesis by (subst userLoop.simps) simp
      next
        case True
        from lt "1.prems" have t: "tokenAt msgsToken idx = Some (msgsToken ! idx)"
          by (simp add: tokenAt_def)
        from "1.IH"(2) [OF lt Some _ t] True "1.prems" lt
        obtain idx' b' where r:
          "userLoop messages msgsToken (idx + 1) (appendMsg userBlock msg (msgsToken ! idx)) = Some (idx', b')"
          "idx + 1 \<le> idx'" "idx' \<le> length messages"
          "msgs b' = msgs (appendMsg userBlock msg (msgsToken ! idx)) @ nonNil (seg messages (idx + 1) idx')"
          by auto
        from lt r(2) Some have "nonNil (seg messages idx idx') = Some msg # nonNil (seg messages (idx + 1) idx')"
          by (simp add: seg_step)
        with r lt Some True t show ?thesis
          by (subst userLoop.simps) (simp add: appendMsg_def)
      qed
    qed
  qed
qed


lemma collectTools_spec:
  "length msgsToken = length messages \<Longrightarrow> j \<le> length messages \<Longrightarrow>
   \<exists>j' b'. collectTools messages msgsToken callIDs j b = Some (j', b') \<and> j \<le> j' \<and> j' \<le> length messages
      \<and> msgs b' = msgs b @ nonNil (seg messages j j')"
proof (induction messages msgsToken callIDs j b rule: collectTools.induct)
  case (1 messages msgsToken callIDs j b)
  show ?case
  proof (cases "j < length messages")
    case False
    with "1.prems" show ?thesis by (subst collectTools.simps) simp
  next
    case lt: True
    show ?thesis
    proof (cases "messages ! j")
      case None
      with lt show ?thesis by (subst collectTools.simps) simp
    next
      case (Some nm)
      from lt "1.prems" have t: "tokenAt msgsToken j = Some (msgsToken ! j)"
        by (simp add: tokenAt_def)
      let ?b = "appendMsg b nm (msgsToken ! j)"
      have absorb: ?thesis
        if r: "\<exists>j' b'. collectTools messages msgsToken callIDs (j + 1) ?b = Some (j', b')
                 \<and> j + 1 \<le> j' \<and> j' \<le> length messages
                 \<and> msgs b' = msgs ?b @ nonNil (seg messages (j + 1) j')"
          and eq: "collectTools messages msgsToken callIDs j b
                 = collectTools messages msgsToken callIDs (j + 1) ?b"
      proof -
        from r obtain j' b' where r':
          "collectTools messages msgsToken callIDs (j + 1) ?b = Some (j', b')"
          "j + 1 \<le> j'" "j' \<le> length messages"
          "msgs b' = msgs ?b @ nonNil (seg messages (j + 1) j')"
          by auto
        from lt r'(2) Some have "nonNil (seg messages j j') = Some nm # nonNil (seg messages (j + 1) j')"
          by (simp add: seg_step)
        with r' eq show ?thesis by (simp add: appendMsg_def)
      qed
      show ?thesis
      proof (cases "Role nm = Tool")
        case False
        with lt Some show ?thesis by (subst collectTools.simps) simp
      next
        case tool: True
        show ?thesis
        proof (cases "ToolCallID nm = []")
          case True
          from "1.IH"(1) [OF lt Some _ True t] tool "1.prems" lt
          have "\<exists>j' b'. collectTools messages msgsToken callIDs (j + 1) ?b = Some (j', b')
                 \<and> j + 1 \<le> j' \<and> j' \<le> length messages
                 \<and> msgs b' = msgs ?b @ nonNil (seg messages (j + 1) j')"
            by simp
          moreover from lt Some tool True t
          have "collectTools messages msgsToken callIDs j b
                 = collectTools messages msgsToken callIDs (j + 1) ?b"
            by (subst collectTools.simps) simp
          ultimately show ?thesis by (rule absorb)
        next
          case nonempty: False
          show ?thesis
          proof (cases "ToolCallID nm \<in> callIDs")
            case False
            with lt Some tool nonempty show ?thesis by (subst collectTools.simps) simp
          next
            case True
            from "1.IH"(2) [OF lt Some _ nonempty _ t] True tool "1.prems" lt
            have "\<exists>j' b'. collectTools messages msgsToken callIDs (j + 1) ?b = Some (j', b')
                   \<and> j + 1 \<le> j' \<and> j' \<le> length messages
                   \<and> msgs b' = msgs ?b @ nonNil (seg messages (j + 1) j')"
              by simp
            moreover from lt Some tool nonempty True t
            have "collectTools messages msgsToken callIDs j b
                   = collectTools messages msgsToken callIDs (j + 1) ?b"
              by (subst collectTools.simps) simp
            ultimately show ?thesis by (rule absorb)
          qed
        qed
      qed
    qed
  qed
qed

lemma toolLoop_spec:
  "length msgsToken = length messages \<Longrightarrow> i \<le> length messages \<Longrightarrow>
   \<exists>tbs. toolLoop messages msgsToken i toolBlocks = Some (toolBlocks @ tbs)
      \<and> concat (map msgs tbs) = nonNil (seg messages i (length messages))
      \<and> (\<forall>b \<in> set tbs. msgs b \<noteq> [])"
proof (induction messages msgsToken i toolBlocks rule: toolLoop.induct)
  case (1 messages msgsToken i toolBlocks)
  show ?case
  proof (cases "i < length messages")
    case False
    with "1.prems" show ?thesis by (subst toolLoop.simps) simp
  next
    case lt: True
    show ?thesis
    proof (cases "messages ! i")
      case None
      from "1.IH"(1) [OF lt None] "1.prems" lt
      obtain tbs where r: "toolLoop messages msgsToken (i + 1) toolBlocks = Some (toolBlocks @ tbs)"
        "concat (map msgs tbs) = nonNil (seg messages (i + 1) (length messages))"
        "\<forall>b \<in> set tbs. msgs b \<noteq> []"
        by auto
      from lt None have "nonNil (seg messages i (length messages)) = nonNil (seg messages (i + 1) (length messages))"
        by (simp add: seg_step)
      with r lt None show ?thesis
        by (subst toolLoop.simps) simp
    next
      case (Some msg)
      from lt "1.prems" have t: "tokenAt msgsToken i = Some (msgsToken ! i)"
        by (simp add: tokenAt_def)
      let ?b0 = "\<lparr>msgs = [Some msg], tokens = msgsToken ! i\<rparr>"
      show ?thesis
      proof (cases "Role msg = Assistant \<and> 0 < length (ToolCalls msg)")
        case False
        from "1.IH"(3) [OF lt Some t False] "1.prems" lt
        obtain tbs where r:
          "toolLoop messages msgsToken (i + 1) (toolBlocks @ [?b0]) = Some ((toolBlocks @ [?b0]) @ tbs)"
          "concat (map msgs tbs) = nonNil (seg messages (i + 1) (length messages))"
          "\<forall>b \<in> set tbs. msgs b \<noteq> []"
          by auto
        from lt Some have s: "nonNil (seg messages i (length messages)) = Some msg # nonNil (seg messages (i + 1) (length messages))"
          by (simp add: seg_step)
        have "toolLoop messages msgsToken i toolBlocks = Some (toolBlocks @ (?b0 # tbs))"
          using lt Some t False r(1) by (subst toolLoop.simps) auto
        moreover have "concat (map msgs (?b0 # tbs)) = nonNil (seg messages i (length messages))"
          using r(2) s by simp
        moreover have "\<forall>b \<in> set (?b0 # tbs). msgs b \<noteq> []"
          using r(3) by simp
        ultimately show ?thesis by blast
      next
        case True
        from collectTools_spec [OF "1.prems"(1), of "i + 1" "set (map ID (ToolCalls msg))" ?b0] lt
        obtain j b where c:
          "collectTools messages msgsToken (set (map ID (ToolCalls msg))) (i + 1) ?b0 = Some (j, b)"
          "i + 1 \<le> j" "j \<le> length messages"
          "msgs b = msgs ?b0 @ nonNil (seg messages (i + 1) j)"
          by auto
        from "1.IH"(2) [OF lt Some t True c(1)] "1.prems" c(3)
        obtain tbs where r:
          "toolLoop messages msgsToken j (toolBlocks @ [b]) = Some ((toolBlocks @ [b]) @ tbs)"
          "concat (map msgs tbs) = nonNil (seg messages j (length messages))"
          "\<forall>b \<in> set tbs. msgs b \<noteq> []"
          by auto
        from c(2,3) have "seg messages (i + 1) j @ seg messages j (length messages)
            = seg messages (i + 1) (length messages)"
          by (simp add: seg_append)
        then have "nonNil (seg messages (i + 1) j) @ nonNil (seg messages j (length messages))
            = nonNil (seg messages (i + 1) (length messages))"
          by (simp flip: nonNil_append)
        moreover from lt Some have "nonNil (seg messages i (length messages))
            = Some msg # nonNil (seg messages (i + 1) (length messages))"
          by (simp add: seg_step)
        ultimately have s: "concat (map msgs (b # tbs)) = nonNil (seg messages i (length messages))"
          using r(2) c(4) by simp
        have "toolLoop messages msgsToken i toolBlocks = Some (toolBlocks @ (b # tbs))"
          using lt Some t True r(1) c(1) by (subst toolLoop.simps) simp
        moreover have "\<forall>b \<in> set (b # tbs). msgs b \<noteq> []"
          using r(3) c(4) by simp
        ultimately show ?thesis using s by blast
      qed
    qed
  qed
qed



lemma nonNil_id: "None \<notin> set xs \<Longrightarrow> nonNil xs = xs"
proof (induction xs)
  case Nil
  show ?case by (simp add: nonNil_def)
next
  case (Cons x xs)
  then show ?case by (cases x) (simp_all add: nonNil_def)
qed

section \<open>The blocks of splitMessages\<close>

text \<open>
  With as many counts as messages, each phase of \<open>splitMessages\<close> returns (no index is out
  of range), moves the index forward, and puts the non-nil messages it passes into its
  block, in order.
\<close>

lemma systemPhase_spec:
  "length msgsToken = length messages \<Longrightarrow>
   \<exists>idx b. systemPhase messages msgsToken = Some (idx, b) \<and> idx \<le> length messages
      \<and> msgs b = nonNil (seg messages 0 idx) \<and> length (msgs b) \<le> 1"
  by (cases messages)
     (auto simp: systemPhase_def tokenAt_def zeroBlock_def appendMsg_def seg_def split: option.splits)

lemma summaryPhase_spec:
  "length msgsToken = length messages \<Longrightarrow> idx \<le> length messages \<Longrightarrow>
   \<exists>idx' b. summaryPhase messages msgsToken idx = Some (idx', b) \<and> idx \<le> idx' \<and> idx' \<le> length messages
      \<and> msgs b = nonNil (seg messages idx idx') \<and> length (msgs b) \<le> 1"
  by (auto simp: summaryPhase_def tokenAt_def zeroBlock_def appendMsg_def seg_step split: option.splits)

lemma splitMessages_spec:
  assumes len: "length msgsToken = length messages"
  shows "\<exists>systemBlock userBlock summaryBlock toolBlocks.
     splitMessages messages msgsToken = Some (systemBlock, userBlock, summaryBlock, toolBlocks)
     \<and> msgs systemBlock @ msgs userBlock @ msgs summaryBlock @ concat (map msgs toolBlocks) = nonNil messages
     \<and> length (msgs systemBlock) \<le> 1 \<and> length (msgs summaryBlock) \<le> 1
     \<and> (\<forall>b \<in> set toolBlocks. msgs b \<noteq> [])"
proof -
  from systemPhase_spec [OF len] obtain idx1 sb where
    s: "systemPhase messages msgsToken = Some (idx1, sb)" "idx1 \<le> length messages"
       "msgs sb = nonNil (seg messages 0 idx1)" "length (msgs sb) \<le> 1"
    by blast
  from userLoop_spec [OF len s(2), of zeroBlock] obtain idx2 ub where
    u: "userLoop messages msgsToken idx1 zeroBlock = Some (idx2, ub)" "idx1 \<le> idx2"
       "idx2 \<le> length messages" "msgs ub = nonNil (seg messages idx1 idx2)"
    by (auto simp: zeroBlock_def)
  from summaryPhase_spec [OF len u(3)] obtain idx3 pb where
    p: "summaryPhase messages msgsToken idx2 = Some (idx3, pb)" "idx2 \<le> idx3"
       "idx3 \<le> length messages" "msgs pb = nonNil (seg messages idx2 idx3)" "length (msgs pb) \<le> 1"
    by blast
  from toolLoop_spec [OF len p(3), of "[]"] obtain tbs where
    t: "toolLoop messages msgsToken idx3 [] = Some tbs"
       "concat (map msgs tbs) = nonNil (seg messages idx3 (length messages))"
       "\<forall>b \<in> set tbs. msgs b \<noteq> []"
    by auto
  have "seg messages 0 idx1 @ seg messages idx1 idx2 @ seg messages idx2 idx3
          @ seg messages idx3 (length messages) = messages"
    using s(2) u(2,3) p(2,3) by (simp add: seg_append seg_all)
  then have "nonNil (seg messages 0 idx1) @ nonNil (seg messages idx1 idx2) @ nonNil (seg messages idx2 idx3)
          @ nonNil (seg messages idx3 (length messages)) = nonNil messages"
    by (simp flip: nonNil_append)
  with s u p t show ?thesis
    by (simp add: splitMessages_def)
qed



lemma splitMessages_example:
  "splitMessages exampleMessages [t0, t1, t2, t3, t4, t5, t6] =
     Some (\<lparr>msgs = [Some sysMsg], tokens = t0\<rparr>,
           \<lparr>msgs = [Some userMsg1, Some userMsg2], tokens = t1 + t2\<rparr>,
           \<lparr>msgs = [], tokens = 0\<rparr>,
           [\<lparr>msgs = [Some callMsg, Some toolMsg1, Some toolMsg2], tokens = t3 + t4 + t5\<rparr>,
            \<lparr>msgs = [Some replyMsg], tokens = t6\<rparr>])"
  by (simp add: splitMessages_def systemPhase_def summaryPhase_def userLoop.simps toolLoop.simps
      collectTools.simps tokenAt_def zeroBlock_def appendMsg_def example_defs role_defs
      summaryMessageFlag_def)

section \<open>The budget loop and its specification\<close>

lemma budgetLoop_step:
  "budgetLoop budget blocks (Suc i) st =
     budgetLoop budget blocks i (specBudgetStep budget (blocks ! i) st)"
  by (cases st) (simp add: specBudgetStep_def Let_def)

lemma budgetLoop_foldr:
  "n \<le> length blocks \<Longrightarrow>
   budgetLoop budget blocks n st = foldr (specBudgetStep budget) (take n blocks) st"
proof (induction n arbitrary: st)
  case 0
  show ?case by simp
next
  case (Suc n)
  then have "take (Suc n) blocks = take n blocks @ [blocks ! n]"
    by (simp add: take_Suc_conv_app_nth)
  with Suc show ?case
    by (simp add: budgetLoop_step del: budgetLoop.simps)
qed

text \<open>Every block lands in one of the two lists, and each list keeps the blocks' order.\<close>

lemma specBudgetSplit_subseq:
  "foldr (specBudgetStep budget) blocks ([], [], 0) = (recent, older, running) \<Longrightarrow>
   subseq recent blocks \<and> subseq older blocks \<and> length recent + length older = length blocks"
proof (induction blocks arbitrary: recent older running)
  case Nil
  then show ?case by auto
next
  case (Cons b blocks)
  obtain r o' t where rest: "foldr (specBudgetStep budget) blocks ([], [], 0) = (r, o', t)"
    by (metis prod_cases3)
  from Cons.IH [OF rest] have ih: "subseq r blocks" "subseq o' blocks" "length r + length o' = length blocks"
    by simp_all
  from Cons.prems rest have "specBudgetStep budget b (r, o', t) = (recent, older, running)"
    by simp
  with ih show ?case
    by (auto simp: specBudgetStep_def split: if_splits)
qed

section \<open>The runs of ProcessMessages\<close>

lemma New_positive:
  "New Compile cfg = Inr m \<Longrightarrow> 0 < sint (maxBefore m) \<and> 0 < sint (maxRecent m)"
  by (auto simp: New_def Let_def DefaultMaxTokensBeforeSummary_def DefaultMaxTokensForRecentMessages_def
      split: option.splits sum.splits if_splits)

lemma sumTokens_Nil [simp]: "sumTokens [] = 0"
  by (simp add: sumTokens_def)

text \<open>
  The \<open>int64\<close> sum of the counts is their sum as integers when no count is negative and
  the sum stays below \<open>2 ^ 63\<close>.
\<close>

lemma sint_add_exact:
  fixes a b :: int64
  assumes "0 \<le> sint a" "0 \<le> sint b" "sint a + sint b < 2 ^ 63"
  shows "sint (a + b) = sint a + sint b"
proof -
  have "sint (a + b) = signed_take_bit 63 (sint a + sint b)"
    by (simp add: sint_word_ariths)
  also from assms have "\<dots> = sint a + sint b"
    by (intro signed_take_bit_int_eq_self) auto
  finally show ?thesis .
qed

lemma foldl_add_exact:
  fixes acc :: int64
  assumes "0 \<le> sint acc" "\<forall>t \<in> set ts. 0 \<le> sint t" "sint acc + sum_list (map sint ts) < 2 ^ 63"
  shows "sint (foldl (+) acc ts) = sint acc + sum_list (map sint ts)"
  using assms
proof (induction ts arbitrary: acc)
  case Nil
  then show ?case by simp
next
  case (Cons t ts)
  have nn: "0 \<le> sum_list (map sint ts)"
    using Cons.prems(2) by (intro sum_list_nonneg) auto
  with Cons.prems have s: "sint (acc + t) = sint acc + sint t"
    by (intro sint_add_exact) auto
  with Cons.prems have "sint (foldl (+) (acc + t) ts) = sint (acc + t) + sum_list (map sint ts)"
    by (intro Cons.IH) auto
  with s show ?case by simp
qed

lemma sumTokens_exact:
  "\<forall>t \<in> set msgsToken. 0 \<le> sint t \<Longrightarrow> sum_list (map sint msgsToken) < 2 ^ 63 \<Longrightarrow>
   sint (sumTokens msgsToken) = sum_list (map sint msgsToken)"
  using foldl_add_exact [of 0 msgsToken] by (simp add: sumTokens_def)

lemma splitMessages_total:
  "length msgsToken = length messages \<Longrightarrow> \<exists>r. splitMessages messages msgsToken = Some r"
  using splitMessages_spec [of msgsToken messages] by auto

text \<open>
  Over the threshold, \<open>ProcessMessages\<close> counts, splits and invokes the summarizer once, on
  the rendered older blocks; what it returns depends on the summarizer's answer alone.
\<close>

lemma ProcessMessages_summarize:
  assumes pos: "0 \<le> sint (maxBefore m)"
    and cnt: "counter m messages = Inr msgsToken"
    and len: "length msgsToken = length messages"
    and over: "sint (maxBefore m) < sint (sumTokens msgsToken)"
  shows "ProcessMessages m messages =
    ([CounterCall messages, SplitCall, SummarizerInvoke (olderTextOf m messages msgsToken)],
     Some (case summarizer m (olderTextOf m messages msgsToken) of
             Inl e \<Rightarrow> Inl (SummarizeFailed e) | Inr summary \<Rightarrow> Inr messages))"
proof -
  from pos over len have ne: "length messages \<noteq> 0"
    by (cases messages) auto
  from splitMessages_total [OF len] obtain sb ub pb tbs where
    sp: "splitMessages messages msgsToken = Some (sb, ub, pb, tbs)"
    by (metis prod_cases4)
  obtain recent older running where
    bl: "budgetLoop (maxRecent m) tbs (length tbs) ([], [], 0) = (recent, older, running)"
    by (metis prod_cases3)
  from sp bl have ot: "olderTextOf m messages msgsToken = joinBlocks older"
    by (simp add: olderTextOf_def)
  from ne cnt len over sp bl ot show ?thesis
    by (simp add: ProcessMessages_def Let_def split: sum.splits)
qed

text \<open>The counter is run exactly on the non-empty lists.\<close>

lemma counter_run_iff:
  "CounterCall messages \<in> set (fst (ProcessMessages m messages)) \<longleftrightarrow> messages \<noteq> []"
  by (auto simp: ProcessMessages_def Let_def split: sum.splits option.splits prod.splits)

lemma example_count: "defaultCounterToken exampleMessages = Inr [3, 2, 7, 4, 1, 1, 4]"
  by (simp add: defaultCounterToken_def countToken_def Let_def example_defs role_defs)

lemma example_sum: "sumTokens [3, 2, 7, 4, 1, 1, 4] = 22"
  by (simp add: sumTokens_def)

lemma example_olderText:
  "olderTextOf (exampleMiddleware threshold) exampleMessages [3, 2, 7, 4, 1, 1, 4] =
     ''[assistant]'' @ nl @ ''tool_call: ls'' @ nl @ ''args: {}'' @ nl
     @ ''tool_call: wc'' @ nl @ ''args: {}'' @ nl @ nl
     @ ''[tool]'' @ nl @ ''a b'' @ nl @ nl @ ''[tool]'' @ nl @ ''2'' @ nl @ nl"
  by (simp add: olderTextOf_def splitMessages_example exampleMiddleware_def joinBlocks_def)
     (simp add: renderMsg_def renderToolCall_def nl_def example_defs role_defs)

section \<open>Formatting of tool messages\<close>

lemma formatToolResult_cases:
  "formatToolResult Unmarshal c =
     (if HasPrefix (TrimSpace c) contentPrefix then
        (case Unmarshal (TrimSpace c) of
           Inl e \<Rightarrow> TrimSpace c
         | Inr items \<Rightarrow> if textParts items = [] then TrimSpace c else textParts items)
      else TrimSpace c)"
  by (simp add: formatToolResult_def Let_def split: sum.splits)

lemma textParts_concat:
  "textParts items = concat (map Text (filter (\<lambda>item. Type item = ''text'') items))"
  by (induction items) (simp_all add: textParts_def)

lemma formatMessage_Content:
  "Role msg = Tool \<Longrightarrow> Content msg \<noteq> [] \<Longrightarrow>
     Content (formatMessage Unmarshal msg) = formatToolResult Unmarshal (Content msg)
     \<and> Role (formatMessage Unmarshal msg) = Tool"
  by (simp add: formatMessage_def Let_def ToolMessage_def)

lemma formatMessage_other:
  "\<not> (Role msg = Tool \<and> Content msg \<noteq> []) \<Longrightarrow> formatMessage Unmarshal msg = msg"
  by (auto simp add: formatMessage_def)

lemma formatMessage_same:
  "formatToolResult Unmarshal (Content msg) = Content msg \<Longrightarrow> formatMessage Unmarshal msg = msg"
  by (simp add: formatMessage_def Let_def)

lemma AfterChatModel_map:
  "None \<notin> set ms \<Longrightarrow>
   AfterChatModel Unmarshal ms = Some (map (map_option (formatMessage Unmarshal)) ms)"
proof (induction ms)
  case Nil
  show ?case by simp
next
  case (Cons m ms)
  then show ?case by (cases m) simp_all
qed

lemma TrimSpace_padded: "TrimSpace paddedContent = ''42''"
  by (simp add: TrimSpace_def trimLeft.simps spaceRunes_def nl_def paddedContent_def)

lemma TrimSpace_nbsp: "TrimSpace nbspContent = ''42''"
  by (simp add: TrimSpace_def trimLeft.simps spaceRunes_def nbspContent_def)

lemma nbsp_distinct:
  "nbspContent \<noteq> [] \<and> nbspContent \<noteq> ''42'' \<and> ''42'' \<noteq> nbspContent"
  by (simp add: nbspContent_def)

lemma TrimSpace_spaced: "TrimSpace spacedContent = spacedContent"
  by (simp add: TrimSpace_def trimLeft.simps spaceRunes_def spacedContent_def)

lemma HasPrefix_spaced: "\<not> HasPrefix spacedContent contentPrefix"
  by (simp add: HasPrefix_def spacedContent_def contentPrefix_def)

lemma TrimSpace_plain: "TrimSpace ''a b'' = ''a b''"
  by (simp add: TrimSpace_def trimLeft.simps spaceRunes_def)

lemma padded_distinct:
  "paddedContent \<noteq> [] \<and> paddedContent \<noteq> ''42'' \<and> ''42'' \<noteq> paddedContent"
  by (simp add: paddedContent_def)

lemma TrimSpace_mcp: "TrimSpace mcpContent = mcpContent"
  by (simp add: TrimSpace_def trimLeft.simps spaceRunes_def mcpContent_def)

lemma HasPrefix_mcp: "HasPrefix mcpContent contentPrefix"
  by (simp add: HasPrefix_def mcpContent_def contentPrefix_def)

lemma mcp_distinct: "mcpContent \<noteq> [] \<and> mcpContent \<noteq> ''hi'' \<and> ''hi'' \<noteq> mcpContent"
  by (simp add: mcpContent_def)

lemma formatMessage_padded: "formatMessage Unmarshal paddedToolMsg = ToolMessage ''42'' []"
  by (simp add: formatMessage_def formatToolResult_def paddedToolMsg_def TrimSpace_padded
      padded_distinct Let_def HasPrefix_def contentPrefix_def)

lemma formatMessage_nbsp: "formatMessage Unmarshal nbspToolMsg = ToolMessage ''42'' []"
  by (simp add: formatMessage_def formatToolResult_def nbspToolMsg_def TrimSpace_nbsp
      nbsp_distinct Let_def HasPrefix_def contentPrefix_def)

lemma formatMessage_spaced: "formatMessage Unmarshal spacedToolMsg = spacedToolMsg"
  by (simp add: formatMessage_def formatToolResult_def spacedToolMsg_def TrimSpace_spaced
      HasPrefix_spaced Let_def)

text \<open>
  The replacement message takes its call id from \<open>msg.ToolCalls[0].ID\<close>, under the
  comment "Preserve the original ToolCallID"; the call id of a tool message is its
  \<open>ToolCallID\<close>, and its \<open>ToolCalls\<close> are empty, so the replacement has the empty id.
\<close>

lemma formatMessage_mcp: "formatMessage mcpDecoded mcpToolMsg = ToolMessage ''hi'' []"
  by (simp add: formatMessage_def formatToolResult_def mcpToolMsg_def TrimSpace_mcp HasPrefix_mcp
      mcp_distinct Let_def mcpDecoded_def textParts_def)

section \<open>Sessions and stores\<close>

lemma GetOrCreateSession_existing:
  "sessions a sessionID = Some session \<Longrightarrow> GetOrCreateSession a sessionID = (session, a)"
  by (simp add: GetOrCreateSession_def)

lemma GetOrCreateSession_installed:
  "sessions (snd (GetOrCreateSession a sessionID)) sessionID
     = Some (fst (GetOrCreateSession a sessionID))"
  by (simp add: GetOrCreateSession_def Let_def split: option.splits sum.splits prod.splits)

lemma GetOrCreateSession_read:
  "sessions a sessionID = None \<Longrightarrow> memoryStore a = Some store \<Longrightarrow>
   GetOrCreateSession a sessionID =
     (length (heap a),
      a\<lparr>sessions := (sessions a)(sessionID \<mapsto> length (heap a)),
        heap := heap a @ [\<lparr>SessionID = sessionID,
                          Messages = (case fst (store sessionID) of None \<Rightarrow> [] | Some ms \<Rightarrow> ms)\<rparr>],
        log := log a @ StoreReadCall sessionID
                 # (case snd (store sessionID) of None \<Rightarrow> [] | Some e \<Rightarrow> [Warnf sessionID e])\<rparr>)"
  by (simp add: GetOrCreateSession_def Let_def split: prod.splits)

lemma GetOrCreateSession_no_store:
  "sessions a sessionID = None \<Longrightarrow> memoryStore a = None \<Longrightarrow>
   GetOrCreateSession a sessionID =
     (length (heap a),
      a\<lparr>sessions := (sessions a)(sessionID \<mapsto> length (heap a)),
        heap := heap a @ [\<lparr>SessionID = sessionID, Messages = []\<rparr>]\<rparr>)"
  by (simp add: GetOrCreateSession_def Let_def)

text \<open>On a session that exists, \<open>AppendAssistantMessage\<close> does append.\<close>

lemma AppendAssistantMessage_existing:
  "sessions a sessionID = Some session \<Longrightarrow> session < length (heap a) \<Longrightarrow>
   GetSessionHistory (AppendAssistantMessage a sessionID message) sessionID
     = Some (Messages (heap a ! session) @ [message])"
  by (simp add: AppendAssistantMessage_def GetSessionHistory_def)

lemma Read_Write_other:
  "other \<noteq> sessionID \<Longrightarrow> Read (fst (Write s sessionID M)) other = Read s other"
  by (simp add: Read_def Write_def)

section \<open>Claims\<close>

text \<open>
  Claim C1. The budget loop of \<open>ProcessMessages\<close> over the tool blocks is the walk of the
  specification: from the newest block to the oldest with a running total that starts at
  zero, a block whose tokens added to the total exceed the budget goes to the front of the
  older list and leaves the total unchanged, any other block goes to the front of the
  recent list and adds its tokens; every block is tested, so each block is in one of the
  two lists and both lists keep the original order. Additions and comparisons are those of
  \<open>int64\<close>. For the token counts 3, 4, 5 (oldest first) and the budget 10 the recent
  blocks are those of 4 and 5 and the older block is that of 3; for the counts 3, 9, 5 the
  block of 9 is older and the block of 3, tested after it, is recent.
\<close>

theorem budgetLoop_refines_spec:
  "budgetLoop budget toolBlocks (length toolBlocks) ([], [], 0) = specBudgetSplit budget toolBlocks
   \<and> subseq (fst (budgetLoop budget toolBlocks (length toolBlocks) ([], [], 0))) toolBlocks
   \<and> subseq (fst (snd (budgetLoop budget toolBlocks (length toolBlocks) ([], [], 0)))) toolBlocks
   \<and> length (fst (budgetLoop budget toolBlocks (length toolBlocks) ([], [], 0)))
       + length (fst (snd (budgetLoop budget toolBlocks (length toolBlocks) ([], [], 0))))
       = length toolBlocks
   \<and> budgetLoop 10 [\<lparr>msgs = ms3, tokens = 3\<rparr>, \<lparr>msgs = ms4, tokens = 4\<rparr>, \<lparr>msgs = ms5, tokens = 5\<rparr>]
         (length [\<lparr>msgs = ms3, tokens = 3\<rparr>, \<lparr>msgs = ms4, tokens = 4\<rparr>, \<lparr>msgs = ms5, tokens = 5\<rparr>])
         ([], [], 0)
       = ([\<lparr>msgs = ms4, tokens = 4\<rparr>, \<lparr>msgs = ms5, tokens = 5\<rparr>], [\<lparr>msgs = ms3, tokens = 3\<rparr>], 9)
   \<and> budgetLoop 10 [\<lparr>msgs = ms3, tokens = 3\<rparr>, \<lparr>msgs = ms9, tokens = 9\<rparr>, \<lparr>msgs = ms5, tokens = 5\<rparr>]
         (length [\<lparr>msgs = ms3, tokens = 3\<rparr>, \<lparr>msgs = ms9, tokens = 9\<rparr>, \<lparr>msgs = ms5, tokens = 5\<rparr>])
         ([], [], 0)
       = ([\<lparr>msgs = ms3, tokens = 3\<rparr>, \<lparr>msgs = ms5, tokens = 5\<rparr>], [\<lparr>msgs = ms9, tokens = 9\<rparr>], 8)"
proof -
  have eq: "budgetLoop budget toolBlocks (length toolBlocks) ([], [], 0)
      = specBudgetSplit budget toolBlocks"
    by (simp add: budgetLoop_foldr specBudgetSplit_def)
  obtain recent older running where
    r: "foldr (specBudgetStep budget) toolBlocks ([], [], 0) = (recent, older, running)"
    by (metis prod_cases3)
  from specBudgetSplit_subseq [OF r] r eq
  have sub: "subseq (fst (budgetLoop budget toolBlocks (length toolBlocks) ([], [], 0))) toolBlocks
    \<and> subseq (fst (snd (budgetLoop budget toolBlocks (length toolBlocks) ([], [], 0)))) toolBlocks
    \<and> length (fst (budgetLoop budget toolBlocks (length toolBlocks) ([], [], 0)))
       + length (fst (snd (budgetLoop budget toolBlocks (length toolBlocks) ([], [], 0))))
       = length toolBlocks"
    by (simp add: specBudgetSplit_def)
  have ex1: "budgetLoop 10 [\<lparr>msgs = ms3, tokens = 3\<rparr>, \<lparr>msgs = ms4, tokens = 4\<rparr>, \<lparr>msgs = ms5, tokens = 5\<rparr>]
         (length [\<lparr>msgs = ms3, tokens = 3\<rparr>, \<lparr>msgs = ms4, tokens = 4\<rparr>, \<lparr>msgs = ms5, tokens = 5\<rparr>])
         ([], [], 0)
       = ([\<lparr>msgs = ms4, tokens = 4\<rparr>, \<lparr>msgs = ms5, tokens = 5\<rparr>], [\<lparr>msgs = ms3, tokens = 3\<rparr>], 9)"
    by simp
  have ex2: "budgetLoop 10 [\<lparr>msgs = ms3, tokens = 3\<rparr>, \<lparr>msgs = ms9, tokens = 9\<rparr>, \<lparr>msgs = ms5, tokens = 5\<rparr>]
         (length [\<lparr>msgs = ms3, tokens = 3\<rparr>, \<lparr>msgs = ms9, tokens = 9\<rparr>, \<lparr>msgs = ms5, tokens = 5\<rparr>])
         ([], [], 0)
       = ([\<lparr>msgs = ms3, tokens = 3\<rparr>, \<lparr>msgs = ms5, tokens = 5\<rparr>], [\<lparr>msgs = ms9, tokens = 9\<rparr>], 8)"
    by simp
  from eq sub ex1 ex2 show ?thesis by blast
qed

text \<open>
  Claim C2, as amended. The formatting step sets the content of a tool message with a
  non-empty content to the result of \<open>formatToolResult\<close>: where the content, trimmed of the
  white space around it, begins with \<open>{"content"\<close> and decodes to a list of parts with some
  text, the concatenation of the texts of the parts of type \<open>text\<close>; in every other case
  (another beginning, a decoding error, no text) the content trimmed of the white space
  around it. A message whose content comes out as it went in is left as it is, call id
  included, and so is a message of another role or with an empty content. Over a list
  with no nil entry the step formats each message in place. Nothing is said of the call
  id of a message whose content changes.
\<close>

theorem formatMessage_content:
  "(Role msg = Tool \<and> Content msg \<noteq> [] \<longrightarrow>
      Role (formatMessage Unmarshal msg) = Tool
      \<and> Content (formatMessage Unmarshal msg) =
          (if HasPrefix (TrimSpace (Content msg)) contentPrefix then
             (case Unmarshal (TrimSpace (Content msg)) of
                Inl e \<Rightarrow> TrimSpace (Content msg)
              | Inr items \<Rightarrow>
                  if textParts items = [] then TrimSpace (Content msg) else textParts items)
           else TrimSpace (Content msg)))
   \<and> textParts items = concat (map Text (filter (\<lambda>item. Type item = ''text'') items))
   \<and> (formatToolResult Unmarshal (Content msg) = Content msg \<longrightarrow> formatMessage Unmarshal msg = msg)
   \<and> (\<not> (Role msg = Tool \<and> Content msg \<noteq> []) \<longrightarrow> formatMessage Unmarshal msg = msg)
   \<and> (None \<notin> set ms \<longrightarrow>
        AfterChatModel Unmarshal ms = Some (map (map_option (formatMessage Unmarshal)) ms))"
  using formatMessage_Content [of msg Unmarshal] formatToolResult_cases [of Unmarshal "Content msg"]
    textParts_concat [of items] formatMessage_same [of Unmarshal msg]
    formatMessage_other [of msg Unmarshal] AfterChatModel_map [of ms Unmarshal]
  by simp

theorem formatMessage_content_witness:
  "Role mcpToolMsg = Tool \<and> Content mcpToolMsg \<noteq> []
   \<and> Content (formatMessage mcpDecoded mcpToolMsg) = ''hi''
   \<and> Role paddedToolMsg = Tool \<and> Content paddedToolMsg \<noteq> []
   \<and> Content (formatMessage mcpDecoded paddedToolMsg) = ''42''
   \<and> Role nbspToolMsg = Tool \<and> Content nbspToolMsg \<noteq> []
   \<and> Content (formatMessage mcpDecoded nbspToolMsg) = ''42''
   \<and> formatToolResult mcpDecoded (Content toolMsg1) = Content toolMsg1
   \<and> formatMessage mcpDecoded toolMsg1 = toolMsg1
   \<and> formatMessage mcpDecoded replyMsg = replyMsg
   \<and> None \<notin> set [Some mcpToolMsg, Some replyMsg]
   \<and> AfterChatModel mcpDecoded [Some mcpToolMsg, Some replyMsg]
       = Some [Some (formatMessage mcpDecoded mcpToolMsg), Some (formatMessage mcpDecoded replyMsg)]"
proof -
  have tool: "Role mcpToolMsg = Tool \<and> Content mcpToolMsg \<noteq> []
      \<and> Role paddedToolMsg = Tool \<and> Content paddedToolMsg \<noteq> []
      \<and> Role nbspToolMsg = Tool \<and> Content nbspToolMsg \<noteq> []"
    by (simp add: mcpToolMsg_def paddedToolMsg_def nbspToolMsg_def mcp_distinct padded_distinct
        nbsp_distinct)
  have "Content toolMsg1 = ''a b''"
    by (simp add: toolMsg1_def)
  then have plain: "formatToolResult mcpDecoded (Content toolMsg1) = Content toolMsg1"
    by (simp add: formatToolResult_def TrimSpace_plain HasPrefix_def contentPrefix_def)
  have reply: "\<not> (Role replyMsg = Tool \<and> Content replyMsg \<noteq> [])"
    by (simp add: replyMsg_def role_defs)
  from tool plain reply
    formatMessage_content [of mcpToolMsg mcpDecoded "[]" "[Some mcpToolMsg, Some replyMsg]"]
    formatMessage_content [of paddedToolMsg mcpDecoded "[]" "[]"]
    formatMessage_content [of nbspToolMsg mcpDecoded "[]" "[]"]
    formatMessage_content [of toolMsg1 mcpDecoded "[]" "[]"]
    formatMessage_content [of replyMsg mcpDecoded "[]" "[]"]
  show ?thesis
    by (simp add: formatMessage_mcp formatMessage_padded formatMessage_nbsp ToolMessage_def)
qed

text \<open>
  Claim C2 as it is stated fails three times. The plain content \<open>paddedContent\<close>, a space,
  42 and a line feed, is not a structured result, and does not pass unchanged: the step
  replaces it by 42. The content \<open>spacedContent\<close> is a JSON object whose \<open>content\<close> is a
  list of typed parts, which the decoder reads as such, and it is not replaced by its
  text, since it does not begin with \<open>{"content"\<close>. And the structured result of
  \<open>mcpToolMsg\<close>, whose call id is \<open>call_1\<close>, is replaced by a message with the empty call
  id.
\<close>

theorem formatMessage_counterexample:
  "\<not> HasPrefix (TrimSpace paddedContent) contentPrefix
   \<and> Content (formatMessage mcpDecoded paddedToolMsg) \<noteq> Content paddedToolMsg
   \<and> mcpDecoded spacedContent = Inr [\<lparr>Type = ''text'', Text = ''hi''\<rparr>]
   \<and> formatMessage mcpDecoded spacedToolMsg = spacedToolMsg
   \<and> Content spacedToolMsg \<noteq> ''hi''
   \<and> AfterChatModel mcpDecoded [Some mcpToolMsg] = Some [Some (ToolMessage ''hi'' [])]
   \<and> ToolCallID mcpToolMsg = ''call_1''
   \<and> ToolCallID (ToolMessage ''hi'' []) = []"
proof -
  have "\<not> HasPrefix (TrimSpace paddedContent) contentPrefix"
    by (simp add: TrimSpace_padded HasPrefix_def contentPrefix_def)
  moreover have "Content paddedToolMsg = paddedContent"
    by (simp add: paddedToolMsg_def)
  then have "Content (formatMessage mcpDecoded paddedToolMsg) \<noteq> Content paddedToolMsg"
    by (simp add: formatMessage_padded ToolMessage_def padded_distinct)
  moreover have "mcpDecoded spacedContent = Inr [\<lparr>Type = ''text'', Text = ''hi''\<rparr>]"
    by (simp add: mcpDecoded_def)
  moreover have "formatMessage mcpDecoded spacedToolMsg = spacedToolMsg"
    by (rule formatMessage_spaced)
  moreover have "Content spacedToolMsg \<noteq> ''hi''"
    by (simp add: spacedToolMsg_def spacedContent_def)
  moreover have "AfterChatModel mcpDecoded [Some mcpToolMsg] = Some [Some (ToolMessage ''hi'' [])]"
    by (simp add: formatMessage_mcp)
  moreover have "ToolCallID mcpToolMsg = ''call_1'' \<and> ToolCallID (ToolMessage ''hi'' []) = []"
    by (simp add: mcpToolMsg_def ToolMessage_def)
  ultimately show ?thesis by blast
qed

text \<open>
  Claim C3. For every message list with no nil entry (and as many token counts as
  messages, which is how \<open>ProcessMessages\<close> calls it), \<open>splitMessages\<close> returns, and its
  blocks partition the list: the system block, the initial user block, the prior summary
  block and the tool blocks, concatenated in this order, are the message list itself; the
  system block and the summary block hold at most one message and no tool block is empty.
  On the history [System, User, User, Assistant with calls t1 and t2, Tool t1, Tool t2,
  Assistant] the result is the system block [sys], the user block [user, user], no summary
  block, and the two tool blocks [assistant, t1, t2] and [assistant], whatever the token
  counts are.
\<close>

theorem splitMessages_partition:
  "(\<forall>messages msgsToken.
      None \<notin> set messages \<and> length msgsToken = length messages \<longrightarrow>
      (\<exists>systemBlock userBlock summaryBlock toolBlocks.
         splitMessages messages msgsToken = Some (systemBlock, userBlock, summaryBlock, toolBlocks)
         \<and> msgs systemBlock @ msgs userBlock @ msgs summaryBlock @ concat (map msgs toolBlocks) = messages
         \<and> length (msgs systemBlock) \<le> 1 \<and> length (msgs summaryBlock) \<le> 1
         \<and> (\<forall>b \<in> set toolBlocks. msgs b \<noteq> [])))
   \<and> splitMessages exampleMessages [t0, t1, t2, t3, t4, t5, t6] =
       Some (\<lparr>msgs = [Some sysMsg], tokens = t0\<rparr>,
             \<lparr>msgs = [Some userMsg1, Some userMsg2], tokens = t1 + t2\<rparr>,
             \<lparr>msgs = [], tokens = 0\<rparr>,
             [\<lparr>msgs = [Some callMsg, Some toolMsg1, Some toolMsg2], tokens = t3 + t4 + t5\<rparr>,
              \<lparr>msgs = [Some replyMsg], tokens = t6\<rparr>])"
proof (intro conjI allI impI)
  fix messages :: "Message option list" and msgsToken :: "int64 list"
  assume a: "None \<notin> set messages \<and> length msgsToken = length messages"
  then have "nonNil messages = messages"
    by (simp add: nonNil_id)
  with splitMessages_spec [of msgsToken messages] a
  show "\<exists>systemBlock userBlock summaryBlock toolBlocks.
         splitMessages messages msgsToken = Some (systemBlock, userBlock, summaryBlock, toolBlocks)
         \<and> msgs systemBlock @ msgs userBlock @ msgs summaryBlock @ concat (map msgs toolBlocks) = messages
         \<and> length (msgs systemBlock) \<le> 1 \<and> length (msgs summaryBlock) \<le> 1
         \<and> (\<forall>b \<in> set toolBlocks. msgs b \<noteq> [])"
    by simp
next
  show "splitMessages exampleMessages [t0, t1, t2, t3, t4, t5, t6] =
       Some (\<lparr>msgs = [Some sysMsg], tokens = t0\<rparr>,
             \<lparr>msgs = [Some userMsg1, Some userMsg2], tokens = t1 + t2\<rparr>,
             \<lparr>msgs = [], tokens = 0\<rparr>,
             [\<lparr>msgs = [Some callMsg, Some toolMsg1, Some toolMsg2], tokens = t3 + t4 + t5\<rparr>,
              \<lparr>msgs = [Some replyMsg], tokens = t6\<rparr>])"
    by (rule splitMessages_example)
qed

theorem splitMessages_partition_witness:
  "None \<notin> set exampleMessages
   \<and> length [3, 2, 7, 4, 1, 1, 4 :: int64] = length exampleMessages
   \<and> (\<exists>systemBlock userBlock summaryBlock toolBlocks.
         splitMessages exampleMessages [3, 2, 7, 4, 1, 1, 4] =
           Some (systemBlock, userBlock, summaryBlock, toolBlocks)
         \<and> msgs systemBlock @ msgs userBlock @ msgs summaryBlock @ concat (map msgs toolBlocks)
             = exampleMessages
         \<and> length (msgs systemBlock) \<le> 1 \<and> length (msgs summaryBlock) \<le> 1
         \<and> (\<forall>b \<in> set toolBlocks. msgs b \<noteq> []))"
  using splitMessages_partition [THEN conjunct1, rule_format, of exampleMessages "[3, 2, 7, 4, 1, 1, 4]"]
  by (simp add: exampleMessages_def)

text \<open>
  Claim C4. Whenever \<open>ProcessMessages\<close> returns a message list, it is its input list,
  also after it has invoked the summarizer.
\<close>

theorem ProcessMessages_returns_input:
  "snd (ProcessMessages m messages) = Some (Inr r) \<Longrightarrow> r = messages"
  by (auto simp: ProcessMessages_def Let_def split: if_splits sum.splits option.splits prod.splits)

theorem ProcessMessages_returns_input_witness:
  "snd (ProcessMessages (exampleMiddleware 20) exampleMessages) = Some (Inr exampleMessages)
   \<and> SummarizerInvoke (olderTextOf (exampleMiddleware 20) exampleMessages [3, 2, 7, 4, 1, 1, 4])
       \<in> set (fst (ProcessMessages (exampleMiddleware 20) exampleMessages))"
proof -
  have run: "ProcessMessages (exampleMiddleware 20) exampleMessages =
      ([CounterCall exampleMessages, SplitCall,
        SummarizerInvoke (olderTextOf (exampleMiddleware 20) exampleMessages [3, 2, 7, 4, 1, 1, 4])],
       Some (Inr exampleMessages))"
    using ProcessMessages_summarize [of "exampleMiddleware 20" exampleMessages "[3, 2, 7, 4, 1, 1, 4]"]
    by (simp add: exampleMiddleware_def example_count example_sum) (simp add: exampleMessages_def)
  then obtain r where r: "snd (ProcessMessages (exampleMiddleware 20) exampleMessages) = Some (Inr r)"
    by simp
  from ProcessMessages_returns_input [OF r] r run show ?thesis
    by simp
qed

text \<open>
  Claim C5. For a middleware whose threshold is not negative (\<open>New\<close> makes it positive)
  and a message list whose token counts, one for each message, sum in \<open>int64\<close> to more
  than \<open>maxBefore\<close>: if the summarizer returns an error on the text it is invoked with,
  \<open>ProcessMessages\<close> returns that error, wrapped, and no message list.
\<close>

theorem ProcessMessages_summarizer_error:
  assumes "0 \<le> sint (maxBefore m)"
    and "counter m messages = Inr msgsToken"
    and "length msgsToken = length messages"
    and "sint (maxBefore m) < sint (sumTokens msgsToken)"
    and "summarizer m (olderTextOf m messages msgsToken) = Inl e"
  shows "ProcessMessages m messages =
    ([CounterCall messages, SplitCall, SummarizerInvoke (olderTextOf m messages msgsToken)],
     Some (Inl (SummarizeFailed e)))"
  using ProcessMessages_summarize [OF assms(1-4)] assms(5) by simp

theorem ProcessMessages_summarizer_error_witness:
  "0 \<le> sint (maxBefore failingMiddleware)
   \<and> counter failingMiddleware exampleMessages = Inr [3, 2, 7, 4, 1, 1, 4]
   \<and> length [3, 2, 7, 4, 1, 1, 4 :: int64] = length exampleMessages
   \<and> sint (maxBefore failingMiddleware) < sint (sumTokens [3, 2, 7, 4, 1, 1, 4])
   \<and> summarizer failingMiddleware (olderTextOf failingMiddleware exampleMessages [3, 2, 7, 4, 1, 1, 4])
       = Inl ''model unavailable''
   \<and> ProcessMessages failingMiddleware exampleMessages =
       ([CounterCall exampleMessages, SplitCall,
         SummarizerInvoke (olderTextOf failingMiddleware exampleMessages [3, 2, 7, 4, 1, 1, 4])],
        Some (Inl (SummarizeFailed ''model unavailable'')))"
proof -
  have h: "0 \<le> sint (maxBefore failingMiddleware)"
    "counter failingMiddleware exampleMessages = Inr [3, 2, 7, 4, 1, 1, 4]"
    "length [3, 2, 7, 4, 1, 1, 4 :: int64] = length exampleMessages"
    "sint (maxBefore failingMiddleware) < sint (sumTokens [3, 2, 7, 4, 1, 1, 4])"
    "summarizer failingMiddleware (olderTextOf failingMiddleware exampleMessages [3, 2, 7, 4, 1, 1, 4])
       = Inl ''model unavailable''"
    by (simp_all add: failingMiddleware_def example_count example_sum)
       (simp add: exampleMessages_def)
  from h ProcessMessages_summarizer_error [OF h] show ?thesis
    by simp
qed

text \<open>
  Claim C6. Whenever \<open>ProcessMessages\<close> runs the counter (it does on every list but the
  empty one) and the counter returns counts whose number differs from the number of
  messages, \<open>ProcessMessages\<close> returns the mismatch error and no message list, and has
  called nothing but the counter: no split and no summarizer.
\<close>

theorem ProcessMessages_count_mismatch:
  assumes "CounterCall messages \<in> set (fst (ProcessMessages m messages))"
    and "counter m messages = Inr msgsToken"
    and "length msgsToken \<noteq> length messages"
  shows "ProcessMessages m messages =
    ([CounterCall messages],
     Some (Inl (TokenCountMismatch (length messages) (length msgsToken))))"
  using assms by (auto simp: ProcessMessages_def)

theorem ProcessMessages_count_mismatch_witness:
  "CounterCall exampleMessages \<in> set (fst (ProcessMessages miscountMiddleware exampleMessages))
   \<and> counter miscountMiddleware exampleMessages = Inr [1]
   \<and> length [1 :: int64] \<noteq> length exampleMessages
   \<and> ProcessMessages miscountMiddleware exampleMessages =
       ([CounterCall exampleMessages], Some (Inl (TokenCountMismatch 7 1)))"
proof -
  have h: "CounterCall exampleMessages \<in> set (fst (ProcessMessages miscountMiddleware exampleMessages))"
    "counter miscountMiddleware exampleMessages = Inr [1]"
    "length [1 :: int64] \<noteq> length exampleMessages"
    by (simp_all add: counter_run_iff miscountMiddleware_def exampleMessages_def)
  from h ProcessMessages_count_mismatch [OF h] show ?thesis
    by (simp add: exampleMessages_def)
qed

text \<open>
  Claim C7. For a non-empty message list whose token counts, one for each message, sum in
  \<open>int64\<close> (the sum of the counts themselves, short of an overflow) to \<open>maxBefore\<close> or less, \<open>ProcessMessages\<close> returns the input list and has
  called nothing but the counter: the summarizer is not invoked, also when the sum is
  exactly \<open>maxBefore\<close>.
\<close>

theorem ProcessMessages_under_threshold:
  assumes "messages \<noteq> []"
    and "counter m messages = Inr msgsToken"
    and "length msgsToken = length messages"
    and "sint (sumTokens msgsToken) \<le> sint (maxBefore m)"
  shows "ProcessMessages m messages = ([CounterCall messages], Some (Inr messages))"
  using assms by (simp add: ProcessMessages_def)

theorem ProcessMessages_under_threshold_witness:
  "exampleMessages \<noteq> []
   \<and> counter (exampleMiddleware 22) exampleMessages = Inr [3, 2, 7, 4, 1, 1, 4]
   \<and> length [3, 2, 7, 4, 1, 1, 4 :: int64] = length exampleMessages
   \<and> sumTokens [3, 2, 7, 4, 1, 1, 4] = maxBefore (exampleMiddleware 22)
   \<and> ProcessMessages (exampleMiddleware 22) exampleMessages
       = ([CounterCall exampleMessages], Some (Inr exampleMessages))"
proof -
  have h: "exampleMessages \<noteq> []"
    "counter (exampleMiddleware 22) exampleMessages = Inr [3, 2, 7, 4, 1, 1, 4]"
    "length [3, 2, 7, 4, 1, 1, 4 :: int64] = length exampleMessages"
    "sint (sumTokens [3, 2, 7, 4, 1, 1, 4]) \<le> sint (maxBefore (exampleMiddleware 22))"
    by (simp_all add: exampleMiddleware_def example_count example_sum)
       (simp_all add: exampleMessages_def)
  have "sumTokens [3, 2, 7, 4, 1, 1, 4] = maxBefore (exampleMiddleware 22)"
    by (simp add: exampleMiddleware_def example_sum)
  with h ProcessMessages_under_threshold [OF h] show ?thesis
    by simp
qed

text \<open>
  Claim C8, as amended. \<open>GetOrCreateSession\<close> has no failure: it always returns a session
  that is installed under the id. A session that is present is returned with the agent
  unchanged, so a second call returns the session of the first and reads the store no
  more. With no session present it reads the store once and installs and returns a new
  session that holds the list the read returned, or no messages when the read returned no
  list, as on a miss and on a read error that carries no list; a read error is logged and
  never returned. With a nil store the new session has no messages.
\<close>

theorem GetOrCreateSession_result:
  "sessions (snd (GetOrCreateSession a sessionID)) sessionID
     = Some (fst (GetOrCreateSession a sessionID))
   \<and> (sessions a sessionID = Some session \<longrightarrow> GetOrCreateSession a sessionID = (session, a))
   \<and> GetOrCreateSession (snd (GetOrCreateSession a sessionID)) sessionID
       = GetOrCreateSession a sessionID
   \<and> (sessions a sessionID = None \<and> memoryStore a = Some store \<longrightarrow>
      GetOrCreateSession a sessionID =
        (length (heap a),
         a\<lparr>sessions := (sessions a)(sessionID \<mapsto> length (heap a)),
           heap := heap a @ [\<lparr>SessionID = sessionID,
                             Messages = (case fst (store sessionID) of None \<Rightarrow> [] | Some ms \<Rightarrow> ms)\<rparr>],
           log := log a @ StoreReadCall sessionID
                    # (case snd (store sessionID) of None \<Rightarrow> [] | Some e \<Rightarrow> [Warnf sessionID e])\<rparr>))
   \<and> (sessions a sessionID = None \<and> memoryStore a = None \<longrightarrow>
      GetOrCreateSession a sessionID =
        (length (heap a),
         a\<lparr>sessions := (sessions a)(sessionID \<mapsto> length (heap a)),
           heap := heap a @ [\<lparr>SessionID = sessionID, Messages = []\<rparr>]\<rparr>))"
proof (intro conjI impI)
  show "sessions (snd (GetOrCreateSession a sessionID)) sessionID
     = Some (fst (GetOrCreateSession a sessionID))"
    by (rule GetOrCreateSession_installed)
  then show "GetOrCreateSession (snd (GetOrCreateSession a sessionID)) sessionID
       = GetOrCreateSession a sessionID"
    by (simp add: GetOrCreateSession_existing)
next
  assume "sessions a sessionID = Some session"
  then show "GetOrCreateSession a sessionID = (session, a)"
    by (rule GetOrCreateSession_existing)
next
  assume "sessions a sessionID = None \<and> memoryStore a = Some store"
  then show "GetOrCreateSession a sessionID =
        (length (heap a),
         a\<lparr>sessions := (sessions a)(sessionID \<mapsto> length (heap a)),
           heap := heap a @ [\<lparr>SessionID = sessionID,
                             Messages = (case fst (store sessionID) of None \<Rightarrow> [] | Some ms \<Rightarrow> ms)\<rparr>],
           log := log a @ StoreReadCall sessionID
                    # (case snd (store sessionID) of None \<Rightarrow> [] | Some e \<Rightarrow> [Warnf sessionID e])\<rparr>)"
    by (simp add: GetOrCreateSession_read)
next
  assume "sessions a sessionID = None \<and> memoryStore a = None"
  then show "GetOrCreateSession a sessionID =
        (length (heap a),
         a\<lparr>sessions := (sessions a)(sessionID \<mapsto> length (heap a)),
           heap := heap a @ [\<lparr>SessionID = sessionID, Messages = []\<rparr>]\<rparr>)"
    by (simp add: GetOrCreateSession_no_store)
qed

theorem GetOrCreateSession_result_witness:
  "GetOrCreateSession agent0 ''s1'' =
     (0, \<lparr>sessions = [''s1'' \<mapsto> 0], heap = [\<lparr>SessionID = ''s1'', Messages = []\<rparr>],
          memoryStore = Some (Read NewInMemoryStore), log = [StoreReadCall ''s1'']\<rparr>)
   \<and> GetOrCreateSession brokenAgent ''s1'' =
     (0, \<lparr>sessions = [''s1'' \<mapsto> 0], heap = [\<lparr>SessionID = ''s1'', Messages = []\<rparr>],
          memoryStore = Some brokenStore,
          log = [StoreReadCall ''s1'', Warnf ''s1'' ''connection refused'']\<rparr>)
   \<and> GetOrCreateSession partialAgent ''s1'' =
     (0, \<lparr>sessions = [''s1'' \<mapsto> 0], heap = [\<lparr>SessionID = ''s1'', Messages = [Some userMsg1]\<rparr>],
          memoryStore = Some partialStore,
          log = [StoreReadCall ''s1'', Warnf ''s1'' ''unexpected EOF'']\<rparr>)
   \<and> sessions (snd (GetOrCreateSession agent0 ''s1'')) ''s1'' = Some 0
   \<and> GetOrCreateSession (snd (GetOrCreateSession agent0 ''s1'')) ''s1''
       = (0, snd (GetOrCreateSession agent0 ''s1''))"
proof -
  have miss: "sessions agent0 ''s1'' = None \<and> memoryStore agent0 = Some (Read NewInMemoryStore)"
    by (simp add: agent0_def)
  have r0: "Read NewInMemoryStore ''s1'' = (None, None)"
    by (simp add: Read_def NewInMemoryStore_def)
  have broken: "sessions brokenAgent ''s1'' = None \<and> memoryStore brokenAgent = Some brokenStore"
    by (simp add: brokenAgent_def)
  have partial: "sessions partialAgent ''s1'' = None \<and> memoryStore partialAgent = Some partialStore"
    by (simp add: partialAgent_def)
  from miss GetOrCreateSession_result [of agent0 "''s1''" 0 "Read NewInMemoryStore"]
  have a: "GetOrCreateSession agent0 ''s1'' =
     (0, \<lparr>sessions = [''s1'' \<mapsto> 0], heap = [\<lparr>SessionID = ''s1'', Messages = []\<rparr>],
          memoryStore = Some (Read NewInMemoryStore), log = [StoreReadCall ''s1'']\<rparr>)"
    by (simp add: r0) (simp add: agent0_def)
  from broken GetOrCreateSession_result [of brokenAgent "''s1''" 0 brokenStore]
  have b: "GetOrCreateSession brokenAgent ''s1'' =
     (0, \<lparr>sessions = [''s1'' \<mapsto> 0], heap = [\<lparr>SessionID = ''s1'', Messages = []\<rparr>],
          memoryStore = Some brokenStore,
          log = [StoreReadCall ''s1'', Warnf ''s1'' ''connection refused'']\<rparr>)"
    by (simp add: brokenStore_def) (simp add: brokenAgent_def)
  from partial GetOrCreateSession_result [of partialAgent "''s1''" 0 partialStore]
  have p: "GetOrCreateSession partialAgent ''s1'' =
     (0, \<lparr>sessions = [''s1'' \<mapsto> 0], heap = [\<lparr>SessionID = ''s1'', Messages = [Some userMsg1]\<rparr>],
          memoryStore = Some partialStore,
          log = [StoreReadCall ''s1'', Warnf ''s1'' ''unexpected EOF'']\<rparr>)"
    by (simp add: partialStore_def) (simp add: partialAgent_def)
  from a have c: "sessions (snd (GetOrCreateSession agent0 ''s1'')) ''s1'' = Some 0"
    by simp
  from c GetOrCreateSession_result [of "snd (GetOrCreateSession agent0 ''s1'')" "''s1''" 0]
  have d: "GetOrCreateSession (snd (GetOrCreateSession agent0 ''s1'')) ''s1''
       = (0, snd (GetOrCreateSession agent0 ''s1''))"
    by simp
  from a b p c d show ?thesis by blast
qed

text \<open>
  Claim C8 as it is stated fails where the read returns a list together with an error:
  the store of \<open>partialAgent\<close> reports an error, and the session installed for \<open>s1\<close> is
  not empty, it holds the message that came with the error.
\<close>

theorem GetOrCreateSession_counterexample:
  "sessions partialAgent ''s1'' = None
   \<and> memoryStore partialAgent = Some partialStore
   \<and> snd (partialStore ''s1'') = Some ''unexpected EOF''
   \<and> GetSessionHistory (snd (GetOrCreateSession partialAgent ''s1'')) ''s1'' = Some [Some userMsg1]
   \<and> [Some userMsg1] \<noteq> ([] :: Message option list)"
  by (simp add: GetOrCreateSession_def GetSessionHistory_def partialAgent_def partialStore_def Let_def)




text \<open>
  Claim C10. For a session id with no session in the map, never created or cleared,
  \<open>AppendAssistantMessage\<close> returns the agent as it was: the session map, the sessions and
  their messages are unchanged, and there is no error to report.
\<close>

theorem AppendAssistantMessage_no_session:
  "(sessions a sessionID = None \<longrightarrow> AppendAssistantMessage a sessionID message = a)
   \<and> AppendAssistantMessage (ClearSession a sessionID) sessionID message = ClearSession a sessionID"
  by (simp add: AppendAssistantMessage_def ClearSession_def)

theorem AppendAssistantMessage_no_session_witness:
  "sessions agent0 ''s1'' = None
   \<and> AppendAssistantMessage agent0 ''s1'' (Some replyMsg) = agent0
   \<and> sessions (snd (GetOrCreateSession agent0 ''s1'')) ''s1'' = Some 0
   \<and> sessions (ClearSession (snd (GetOrCreateSession agent0 ''s1'')) ''s1'') ''s1'' = None
   \<and> AppendAssistantMessage (ClearSession (snd (GetOrCreateSession agent0 ''s1'')) ''s1'') ''s1''
         (Some replyMsg)
       = ClearSession (snd (GetOrCreateSession agent0 ''s1'')) ''s1''"
proof -
  have n: "sessions agent0 ''s1'' = None"
    by (simp add: agent0_def)
  have g: "sessions (snd (GetOrCreateSession agent0 ''s1'')) ''s1'' = Some 0"
    using GetOrCreateSession_installed [of agent0 "''s1''"]
    by (simp add: GetOrCreateSession_def agent0_def Let_def Read_def NewInMemoryStore_def)
  have c: "sessions (ClearSession (snd (GetOrCreateSession agent0 ''s1'')) ''s1'') ''s1'' = None"
    by (simp add: ClearSession_def)
  from n g c AppendAssistantMessage_no_session [of agent0 "''s1''" "Some replyMsg"]
    AppendAssistantMessage_no_session [of "snd (GetOrCreateSession agent0 ''s1'')" "''s1''" "Some replyMsg"]
  show ?thesis by simp
qed

end
